theory Spec2Isabelle
  imports Main "HOL-Library.AList" "HOL-Library.Word"
begin

unbundle bit_operations_syntax

section \<open>C and C++ library functions used by the providers\<close>

text \<open>
  The external camera providers (\<^verbatim>\<open>ExternalCameraProvider.cpp\<close>, the AIDL one, and
  \<^verbatim>\<open>ExternalCameraProviderImpl_2_4.cpp\<close>, the HIDL one) build and take apart device names
  with \<^verbatim>\<open>atoi\<close>, \<^verbatim>\<open>std::stoi\<close> and \<^verbatim>\<open>std::to_string\<close> on \<^verbatim>\<open>int\<close>. An \<^verbatim>\<open>int\<close> is 32 bits; it is
  modelled as a mathematical integer with the two's complement wrap-around written out.
\<close>

definition INT_MIN :: int where
  "INT_MIN = - (2 ^ 31)"

definition INT_MAX :: int where
  "INT_MAX = 2 ^ 31 - 1"

definition wrap32 :: "int \<Rightarrow> int" where
  "wrap32 x = (x + 2 ^ 31) mod 2 ^ 32 - 2 ^ 31"

definition isspace :: "char \<Rightarrow> bool" where
  "isspace c = (c = CHR '' '' \<or> c = CHR 0x09 \<or> c = CHR 0x0A \<or> c = CHR 0x0B
                \<or> c = CHR 0x0C \<or> c = CHR 0x0D)"

definition isdigit :: "char \<Rightarrow> bool" where
  "isdigit c = (48 \<le> (of_char c :: nat) \<and> (of_char c :: nat) \<le> 57)"

definition digits_value :: "string \<Rightarrow> nat" where
  "digits_value ds = foldl (\<lambda>acc c. 10 * acc + (of_char c - 48)) 0 ds"

text \<open>
  The common front end of \<^verbatim>\<open>strtol(s, &end, 10)\<close>: skip white space, read one optional
  sign, read the longest run of decimal digits. The result is the mathematical value
  and the number of digits read (0 digits: no conversion was performed).
\<close>

definition strtol_scan :: "string \<Rightarrow> int \<times> nat" where
  "strtol_scan s =
     (let s1 = dropWhile isspace s;
          neg = (s1 \<noteq> [] \<and> hd s1 = CHR ''-'');
          s2 = (if s1 \<noteq> [] \<and> (hd s1 = CHR ''-'' \<or> hd s1 = CHR ''+'') then tl s1 else s1);
          ds = takeWhile isdigit s2;
          v = int (digits_value ds)
      in (if neg then - v else v, length ds))"

text \<open>
  \<^verbatim>\<open>atoi\<close>: no error reporting; with no digits the value is 0. A value outside \<^verbatim>\<open>int\<close> is
  undefined in C; the model truncates it to 32 bits. The theorems below that depend on
  the value assume it in range.
\<close>

definition atoi :: "string \<Rightarrow> int" where
  "atoi s = wrap32 (fst (strtol_scan s))"

text \<open>
  \<^verbatim>\<open>std::stoi\<close> throws \<^verbatim>\<open>std::invalid_argument\<close> when no conversion could be performed and
  \<^verbatim>\<open>std::out_of_range\<close> when the value does not fit an \<^verbatim>\<open>int\<close>. Neither provider catches
  an exception, so a thrown exception ends the call (and the process).
\<close>

datatype cpp_exception = invalid_argument | out_of_range

definition stoi :: "string \<Rightarrow> cpp_exception + int" where
  "stoi s =
     (case strtol_scan s of
        (v, n) \<Rightarrow>
          if n = 0 then Inl invalid_argument
          else if v < INT_MIN \<or> INT_MAX < v then Inl out_of_range
          else Inr v)"

function to_string_nat :: "nat \<Rightarrow> string" where
  "to_string_nat n =
     (if n < 10 then [char_of (48 + n)]
      else to_string_nat (n div 10) @ [char_of (48 + n mod 10)])"
  by pat_completeness auto
termination
  by (relation "measure id") auto

declare to_string_nat.simps [simp del]

definition to_string :: "int \<Rightarrow> string" where
  "to_string i = (if i < 0 then CHR ''-'' # to_string_nat (nat (- i)) else to_string_nat (nat i))"

section \<open>Data model\<close>

text \<open>
  \<^verbatim>\<open>CameraDeviceStatus\<close> and \<^verbatim>\<open>Status\<close> are the interface enums the providers use (their
  declarations are generated from the interface files); the value-initialised
  \<^verbatim>\<open>CameraDeviceStatus\<close>, which \<^verbatim>\<open>operator[]\<close> of the status map would insert, is
  \<^verbatim>\<open>NOT_PRESENT\<close>.
\<close>

datatype CameraDeviceStatus = NOT_PRESENT | PRESENT | ENUMERATING

datatype Status = OK | ILLEGAL_ARGUMENT | OPERATION_NOT_SUPPORTED | INTERNAL_ERROR

text \<open>A callback object (\<^verbatim>\<open>ICameraProviderCallback\<close>) is identified by a number.\<close>

type_synonym callback = nat

record ExternalCameraConfig =
  cameraIdOffset :: int
  mInternalDevices :: "string list"

text \<open>
  What a provider does to the outside, in program order: the notifications it sends to
  the callback, the system and library calls of the discovery code, and the error log.
\<close>

datatype effect =
    cameraDeviceStatusChange callback string CameraDeviceStatus
  | ALOGE string
  | ALOGW string
  | ReadFileToString string
  | open_O_RDWR string
  | open_O_RDWR_O_NONBLOCK string
  | VIDIOC_QUERYCAP string
  | VIDIOC_ENUM_FMT string
  | usleep int
  | opendir string
  | make_ExternalCameraDevice string

text \<open>
  The provider's mutable state. \<^verbatim>\<open>mCameraStatusMap\<close> is a standard map from device name to
  status; it is an association list here, so that iterating it (as \<^verbatim>\<open>setCallback\<close> does)
  is a computation. The order of the list stands for the map's iteration order.
\<close>

record provider =
  mCameraStatusMap :: "(string \<times> CameraDeviceStatus) list"
  mCallback :: "callback option"

definition map_count :: "'k \<Rightarrow> ('k \<times> 'v) list \<Rightarrow> nat" where
  "map_count k m = (if k \<in> fst ` set m then 1 else 0)"

definition map_assign :: "'k \<Rightarrow> 'v \<Rightarrow> ('k \<times> 'v) list \<Rightarrow> ('k \<times> 'v) list" where
  "map_assign k v m = AList.update k v m"

definition map_erase :: "'k \<Rightarrow> ('k \<times> 'v) list \<Rightarrow> ('k \<times> 'v) list \<times> nat" where
  "map_erase k m = (AList.delete k m, map_count k m)"

text \<open>
  \<^verbatim>\<open>m[k]\<close> read as a value: \<^verbatim>\<open>operator[]\<close> inserts a value-initialised entry when the key
  is missing.
\<close>

definition map_index ::
  "string \<Rightarrow> (string \<times> CameraDeviceStatus) list \<Rightarrow>
     CameraDeviceStatus \<times> (string \<times> CameraDeviceStatus) list" where
  "map_index k m =
     (case map_of m k of
        Some v \<Rightarrow> (v, m)
      | None \<Rightarrow> (NOT_PRESENT, m @ [(k, NOT_PRESENT)]))"

definition notify :: "callback option \<Rightarrow> string \<Rightarrow> CameraDeviceStatus \<Rightarrow> effect list" where
  "notify cb deviceName st =
     (case cb of None \<Rightarrow> [] | Some c \<Rightarrow> [cameraDeviceStatusChange c deviceName st])"

section \<open>The presence registry: addExternalCamera, deviceRemoved, setCallback\<close>

text \<open>
  Both providers derive the device name from the node path in the same way; they differ
  in the version text and in \<^verbatim>\<open>kDevicePrefixLen\<close>, the number of characters skipped before
  \<^verbatim>\<open>atoi\<close> reads the node number. \<^verbatim>\<open>devName + kDevicePrefixLen\<close> is \<^verbatim>\<open>drop\<close>: a pointer past
  the terminator, which C leaves undefined, reads as the empty string in the model.
\<close>

definition externalDeviceName :: "string \<Rightarrow> nat \<Rightarrow> ExternalCameraConfig \<Rightarrow> string \<Rightarrow> string" where
  "externalDeviceName version prefixLen cfg devName =
     (let cameraId = to_string (wrap32 (cameraIdOffset cfg + atoi (drop prefixLen devName)))
      in ''device@'' @ version @ ''/external/'' @ cameraId)"

definition addExternalCamera ::
  "string \<Rightarrow> nat \<Rightarrow> ExternalCameraConfig \<Rightarrow> string \<Rightarrow> provider \<Rightarrow> provider \<times> effect list" where
  "addExternalCamera version prefixLen cfg devName p =
     (let deviceName = externalDeviceName version prefixLen cfg devName;
          p' = p\<lparr>mCameraStatusMap := map_assign deviceName PRESENT (mCameraStatusMap p)\<rparr>
      in (p', notify (mCallback p') deviceName PRESENT))"

text \<open>
  \<^verbatim>\<open>deviceRemoved\<close>: the AIDL provider tests the count that \<^verbatim>\<open>erase\<close> returns, the HIDL one
  looks the name up with \<^verbatim>\<open>find\<close> and erases it when found. Neither returns a value; an
  unknown name is logged with \<^verbatim>\<open>ALOGE\<close> and nothing else happens.
\<close>

definition deviceRemoved ::
  "string \<Rightarrow> nat \<Rightarrow> ExternalCameraConfig \<Rightarrow> string \<Rightarrow> provider \<Rightarrow> provider \<times> effect list" where
  "deviceRemoved version prefixLen cfg devName p =
     (let deviceName = externalDeviceName version prefixLen cfg devName in
      case map_erase deviceName (mCameraStatusMap p) of
        (m', erased) \<Rightarrow>
          if erased = 0 then (p\<lparr>mCameraStatusMap := m'\<rparr>, [ALOGE ''cannot find camera device to remove''])
          else (p\<lparr>mCameraStatusMap := m'\<rparr>, notify (mCallback p) deviceName NOT_PRESENT))"

definition hidl_deviceRemoved ::
  "string \<Rightarrow> nat \<Rightarrow> ExternalCameraConfig \<Rightarrow> string \<Rightarrow> provider \<Rightarrow> provider \<times> effect list" where
  "hidl_deviceRemoved version prefixLen cfg devName p =
     (let deviceName = externalDeviceName version prefixLen cfg devName in
      if map_of (mCameraStatusMap p) deviceName \<noteq> None
      then (p\<lparr>mCameraStatusMap := fst (map_erase deviceName (mCameraStatusMap p))\<rparr>,
            notify (mCallback p) deviceName NOT_PRESENT)
      else (p, [ALOGE ''cannot find camera device'']))"

definition setCallback :: "callback option \<Rightarrow> provider \<Rightarrow> Status \<times> provider \<times> effect list" where
  "setCallback cb p =
     (let p' = p\<lparr>mCallback := cb\<rparr> in
      case mCallback p' of
        None \<Rightarrow> (OK, p', [])
      | Some c \<Rightarrow> (OK, p', map (\<lambda>pair. cameraDeviceStatusChange c (fst pair) (snd pair))
                               (mCameraStatusMap p')))"

text \<open>The constants that differ between the two providers.\<close>

definition aidl_kDevicePrefixLen :: nat where
  "aidl_kDevicePrefixLen = (length ''/dev/'' + 1) + length ''video'' - 1"

text \<open>
  In the HIDL provider \<^verbatim>\<open>kDevicePath\<close> is a pointer, so \<^verbatim>\<open>sizeof(kDevicePath)\<close> is the size of
  a pointer of the build: 4 on a 32-bit build (then the prefix length is 10, the length
  of \<^verbatim>\<open>/dev/video\<close>), 8 on a 64-bit build. The pointer size is a parameter.
\<close>

definition hidl_kDevicePrefixLen :: "nat \<Rightarrow> nat" where
  "hidl_kDevicePrefixLen sizeof_ptr = sizeof_ptr + length ''video'' + 1"

definition hidl_deviceVersion :: "int \<Rightarrow> string" where
  "hidl_deviceVersion mPreferredHal3MinorVersion =
     (if mPreferredHal3MinorVersion = 6 then ''3.6''
      else if mPreferredHal3MinorVersion = 5 then ''3.5''
      else ''3.4'')"

definition aidl_addExternalCamera ::
  "string \<Rightarrow> ExternalCameraConfig \<Rightarrow> string \<Rightarrow> provider \<Rightarrow> provider \<times> effect list" where
  "aidl_addExternalCamera kDeviceVersion cfg devName p =
     addExternalCamera kDeviceVersion aidl_kDevicePrefixLen cfg devName p"

definition aidl_deviceRemoved ::
  "string \<Rightarrow> ExternalCameraConfig \<Rightarrow> string \<Rightarrow> provider \<Rightarrow> provider \<times> effect list" where
  "aidl_deviceRemoved kDeviceVersion cfg devName p =
     deviceRemoved kDeviceVersion aidl_kDevicePrefixLen cfg devName p"

definition hidl_addExternalCamera ::
  "nat \<Rightarrow> int \<Rightarrow> ExternalCameraConfig \<Rightarrow> string \<Rightarrow> provider \<Rightarrow> provider \<times> effect list" where
  "hidl_addExternalCamera sizeof_ptr mPreferredHal3MinorVersion cfg devName p =
     addExternalCamera (hidl_deviceVersion mPreferredHal3MinorVersion)
       (hidl_kDevicePrefixLen sizeof_ptr) cfg devName p"

definition hidl_deviceRemoved_2_4 ::
  "nat \<Rightarrow> int \<Rightarrow> ExternalCameraConfig \<Rightarrow> string \<Rightarrow> provider \<Rightarrow> provider \<times> effect list" where
  "hidl_deviceRemoved_2_4 sizeof_ptr mPreferredHal3MinorVersion cfg devName p =
     hidl_deviceRemoved (hidl_deviceVersion mPreferredHal3MinorVersion)
       (hidl_kDevicePrefixLen sizeof_ptr) cfg devName p"

section \<open>The provider's queries\<close>

text \<open>
  The AIDL methods return their result through a pointer and answer
  \<^verbatim>\<open>ILLEGAL_ARGUMENT\<close> when it is null; \<^verbatim>\<open>aidl_return_given\<close> says that it is not null, and
  the value written is \<^verbatim>\<open>None\<close> when nothing is written. The HIDL methods pass the
  result to a callback.
\<close>

type_synonym VendorTagSection = "string \<times> string list"

definition aidl_getCameraIdList :: "bool \<Rightarrow> provider \<Rightarrow> Status \<times> string list option" where
  "aidl_getCameraIdList aidl_return_given p =
     (if \<not> aidl_return_given then (ILLEGAL_ARGUMENT, None) else (OK, Some []))"

definition aidl_getVendorTags :: "bool \<Rightarrow> provider \<Rightarrow> Status \<times> VendorTagSection list option" where
  "aidl_getVendorTags aidl_return_given p =
     (if \<not> aidl_return_given then (ILLEGAL_ARGUMENT, None) else (OK, Some []))"

definition hidl_getCameraIdList :: "provider \<Rightarrow> Status \<times> string list" where
  "hidl_getCameraIdList p = (OK, [])"

definition hidl_getVendorTags :: "provider \<Rightarrow> Status \<times> VendorTagSection list" where
  "hidl_getVendorTags p = (OK, [])"

section \<open>Device names: matchDeviceName\<close>

text \<open>
  \<^verbatim>\<open>kDeviceNameRE\<close> is the regular expression
  \<^verbatim>\<open>device@([0-9]+\.[0-9]+)/external/(.+)\<close>, and \<^verbatim>\<open>std::regex_match\<close> matches the whole string.
  In the ECMAScript grammar the dot matches every character but the line terminators
  (line feed and carriage return, for \<^verbatim>\<open>char\<close>).
\<close>

definition any_but_newline :: "char \<Rightarrow> bool" where
  "any_but_newline c = (c \<noteq> CHR 0x0A \<and> c \<noteq> CHR 0x0D)"

text \<open>
  Regular expressions as a data type, with the language of each and a matcher that
  consumes the string character by character: \<^verbatim>\<open>after_char c r\<close> matches what may follow
  \<^verbatim>\<open>c\<close> in a match of \<^verbatim>\<open>r\<close>. Groups do not change what is matched and are left out.
\<close>

datatype regex =
    Fail
  | Empty
  | Class "char \<Rightarrow> bool"
  | Either regex regex
  | Then regex regex
  | Many regex

inductive_set many :: "string set \<Rightarrow> string set" for A :: "string set" where
  many_none: "[] \<in> many A"
| many_more: "u \<in> A \<Longrightarrow> v \<in> many A \<Longrightarrow> u @ v \<in> many A"

fun language :: "regex \<Rightarrow> string set" where
  "language Fail = {}"
| "language Empty = {[]}"
| "language (Class P) = {[c] | c. P c}"
| "language (Either r s) = language r \<union> language s"
| "language (Then r s) = {u @ v | u v. u \<in> language r \<and> v \<in> language s}"
| "language (Many r) = many (language r)"

fun matches_empty :: "regex \<Rightarrow> bool" where
  "matches_empty Fail = False"
| "matches_empty Empty = True"
| "matches_empty (Class P) = False"
| "matches_empty (Either r s) = (matches_empty r \<or> matches_empty s)"
| "matches_empty (Then r s) = (matches_empty r \<and> matches_empty s)"
| "matches_empty (Many r) = True"

fun after_char :: "char \<Rightarrow> regex \<Rightarrow> regex" where
  "after_char c Fail = Fail"
| "after_char c Empty = Fail"
| "after_char c (Class P) = (if P c then Empty else Fail)"
| "after_char c (Either r s) = Either (after_char c r) (after_char c s)"
| "after_char c (Then r s) =
     (if matches_empty r then Either (Then (after_char c r) s) (after_char c s)
      else Then (after_char c r) s)"
| "after_char c (Many r) = Then (after_char c r) (Many r)"

definition regex_match :: "regex \<Rightarrow> string \<Rightarrow> bool" where
  "regex_match r s = matches_empty (foldl (\<lambda>q c. after_char c q) r s)"

definition literal :: "string \<Rightarrow> regex" where
  "literal s = foldr (\<lambda>c r. Then (Class (\<lambda>x. x = c)) r) s Empty"

definition one_or_more :: "regex \<Rightarrow> regex" where
  "one_or_more r = Then r (Many r)"

definition kDeviceNameRE :: regex where
  "kDeviceNameRE =
     Then (literal ''device@'')
       (Then (one_or_more (Class isdigit))
          (Then (Class (\<lambda>c. c = CHR ''.''))
             (Then (one_or_more (Class isdigit))
                (Then (literal ''/external/'') (one_or_more (Class any_but_newline))))))"

text \<open>
  The expression is deterministic: after the literal text the digits of each number
  end at the first character that is not a digit. \<^verbatim>\<open>regex_match_kDeviceNameRE\<close> is the match
  together with its result \<^verbatim>\<open>sm\<close>: it returns the two sub-matches \<^verbatim>\<open>sm[1]\<close> and \<^verbatim>\<open>sm[2]\<close>, or
  \<^verbatim>\<open>None\<close> when the string does not match (it matches exactly when \<^verbatim>\<open>regex_match kDeviceNameRE\<close>
  does, as proved below).
\<close>

definition regex_match_kDeviceNameRE :: "string \<Rightarrow> (string \<times> string) option" where
  "regex_match_kDeviceNameRE s =
     (if take 7 s \<noteq> ''device@'' then None
      else
        let r1 = drop 7 s; major = takeWhile isdigit r1; r2 = dropWhile isdigit r1 in
        if major = [] \<or> take 1 r2 \<noteq> ''.'' then None
        else
          let r3 = drop 1 r2; minor = takeWhile isdigit r3; r4 = dropWhile isdigit r3 in
          if minor = [] \<or> take 10 r4 \<noteq> ''/external/'' then None
          else
            let sm2 = drop 10 r4 in
            if sm2 = [] \<or> \<not> list_all any_but_newline sm2 then None
            else Some (major @ ''.'' @ minor, sm2))"

text \<open>
  The language of \<^verbatim>\<open>kDeviceNameRE\<close>, written out: the text \<^verbatim>\<open>device@\<close>, two non-empty runs of
  digits with a dot between them, the text \<^verbatim>\<open>/external/\<close>, and a non-empty rest without
  line terminators.
\<close>

definition matches_kDeviceNameRE :: "string \<Rightarrow> bool" where
  "matches_kDeviceNameRE s =
     (\<exists>major minor ident.
        s = ''device@'' @ major @ ''.'' @ minor @ ''/external/'' @ ident
        \<and> major \<noteq> [] \<and> list_all isdigit major
        \<and> minor \<noteq> [] \<and> list_all isdigit minor
        \<and> ident \<noteq> [] \<and> list_all any_but_newline ident)"

text \<open>
  The wire grammar as the specification words it,
  \<^verbatim>\<open>device@<major>.<minor>/external/<decimal-id>\<close>: the rest is a decimal number.
\<close>

definition wire_grammar :: "string \<Rightarrow> bool" where
  "wire_grammar s =
     (\<exists>major minor ident.
        s = ''device@'' @ major @ ''.'' @ minor @ ''/external/'' @ ident
        \<and> major \<noteq> [] \<and> list_all isdigit major
        \<and> minor \<noteq> [] \<and> list_all isdigit minor
        \<and> ident \<noteq> [] \<and> list_all isdigit ident)"

text \<open>The text of a version, \<^verbatim>\<open>[0-9]+\.[0-9]+\<close>, as a test that computes.\<close>

definition version_text :: "string \<Rightarrow> bool" where
  "version_text v =
     (takeWhile isdigit v \<noteq> [] \<and> take 1 (dropWhile isdigit v) = ''.''
      \<and> drop 1 (dropWhile isdigit v) \<noteq> [] \<and> list_all isdigit (drop 1 (dropWhile isdigit v)))"

text \<open>
  \<^verbatim>\<open>matchDeviceName\<close>. The two result pointers may be null; the callers here pass both.
  The result is \<^verbatim>\<open>Inl\<close> when \<^verbatim>\<open>std::stoi\<close> throws, and otherwise the returned flag with the
  values written to \<^verbatim>\<open>*deviceVersion\<close> and \<^verbatim>\<open>*cameraDevicePath\<close> (\<^verbatim>\<open>None\<close>: not written).
\<close>

definition matchDeviceName ::
  "int \<Rightarrow> string \<Rightarrow> bool \<Rightarrow> bool \<Rightarrow> cpp_exception + (bool \<times> string option \<times> string option)" where
  "matchDeviceName idOffset deviceName deviceVersion_given cameraDevicePath_given =
     (case regex_match_kDeviceNameRE deviceName of
        None \<Rightarrow> Inr (False, None, None)
      | Some (sm1, sm2) \<Rightarrow>
          let deviceVersion = (if deviceVersion_given then Some sm1 else None) in
          if cameraDevicePath_given then
            (case stoi sm2 of
               Inl e \<Rightarrow> Inl e
             | Inr i \<Rightarrow>
                 Inr (True, deviceVersion,
                      Some (''/dev/video'' @ to_string (wrap32 (i - idOffset)))))
          else Inr (True, deviceVersion, None))"

text \<open>A \<^verbatim>\<open>hidl_string\<close> has an explicit size; \<^verbatim>\<open>c_str()\<close> read as a C string ends at the first NUL.\<close>

definition c_str :: "string \<Rightarrow> string" where
  "c_str s = takeWhile (\<lambda>c. c \<noteq> CHR 0x00) s"

definition hidl_matchDeviceName ::
  "int \<Rightarrow> string \<Rightarrow> bool \<Rightarrow> bool \<Rightarrow> cpp_exception + (bool \<times> string option \<times> string option)" where
  "hidl_matchDeviceName idOffset deviceName deviceVersion_given cameraDevicePath_given =
     matchDeviceName idOffset (c_str deviceName) deviceVersion_given cameraDevicePath_given"

section \<open>The world outside the provider\<close>

text \<open>
  What the kernel, the file system and the device implementation answer while one
  request or one file system event is handled. The device implementation
  (\<^verbatim>\<open>ExternalCameraDevice\<close>) is a collaborator: \<^verbatim>\<open>init_failed\<close> says, for a node path, that
  constructing it gives a null object or one whose \<^verbatim>\<open>isInitFailed()\<close> holds.
\<close>

record v4l2_capability =
  driver :: string
  device_caps :: "32 word"

record environment =
  file_content :: "string \<Rightarrow> string option"
  open_nonblock_ok :: "string \<Rightarrow> bool"
  open_ok :: "string \<Rightarrow> bool"
  querycap :: "string \<Rightarrow> v4l2_capability option"
  enum_fmt_ok :: "string \<Rightarrow> bool"
  dev_dir :: "string list option"
  init_failed :: "string \<Rightarrow> bool"

datatype ICameraDevice =
    ExternalCameraDevice string
  | ExternalCameraDevice_3_4 string
  | ExternalCameraDevice_3_5 string
  | ExternalCameraDevice_3_6 string

section \<open>getCameraDeviceInterface\<close>

text \<open>
  The result is \<^verbatim>\<open>Inl\<close> when the call ends in an exception; otherwise the status, the
  device handed back (\<^verbatim>\<open>None\<close> for \<^verbatim>\<open>nullptr\<close>), the provider after the call and the effects.
  The status map is read with \<^verbatim>\<open>count\<close> and then \<^verbatim>\<open>operator[]\<close>, guarded by the short-circuit
  \<^verbatim>\<open>||\<close>.
\<close>

type_synonym resolve_result = "cpp_exception + (Status \<times> ICameraDevice option \<times> provider \<times> effect list)"

definition aidl_getCameraDeviceInterface ::
  "environment \<Rightarrow> ExternalCameraConfig \<Rightarrow> bool \<Rightarrow> string \<Rightarrow> provider \<Rightarrow> resolve_result" where
  "aidl_getCameraDeviceInterface env cfg aidl_return_given in_cameraDeviceName p =
     (if \<not> aidl_return_given then Inr (ILLEGAL_ARGUMENT, None, p, [])
      else
        case matchDeviceName (cameraIdOffset cfg) in_cameraDeviceName True True of
          Inl e \<Rightarrow> Inl e
        | Inr (match, deviceVersion, cameraDevicePath) \<Rightarrow>
            if \<not> match then Inr (ILLEGAL_ARGUMENT, None, p, [])
            else if map_count in_cameraDeviceName (mCameraStatusMap p) = 0
              then Inr (ILLEGAL_ARGUMENT, None, p, [])
            else
              case map_index in_cameraDeviceName (mCameraStatusMap p) of
                (st, m') \<Rightarrow>
                  let p' = p\<lparr>mCameraStatusMap := m'\<rparr>;
                      path = (case cameraDevicePath of Some x \<Rightarrow> x | None \<Rightarrow> [])
                  in
                  if st \<noteq> PRESENT then Inr (ILLEGAL_ARGUMENT, None, p', [])
                  else if init_failed env path
                    then Inr (INTERNAL_ERROR, None, p',
                              [make_ExternalCameraDevice path, ALOGE ''camera device init failed''])
                  else Inr (OK, Some (ExternalCameraDevice path), p',
                            [make_ExternalCameraDevice path]))"

definition hidl_getCameraDeviceInterface_V3_x ::
  "environment \<Rightarrow> ExternalCameraConfig \<Rightarrow> int \<Rightarrow> string \<Rightarrow> provider \<Rightarrow> resolve_result" where
  "hidl_getCameraDeviceInterface_V3_x env cfg mPreferredHal3MinorVersion cameraDeviceName p =
     (case hidl_matchDeviceName (cameraIdOffset cfg) cameraDeviceName True True of
        Inl e \<Rightarrow> Inl e
      | Inr (match, deviceVersion, cameraDevicePath) \<Rightarrow>
          if \<not> match then Inr (ILLEGAL_ARGUMENT, None, p, [])
          else if map_count cameraDeviceName (mCameraStatusMap p) = 0
            then Inr (ILLEGAL_ARGUMENT, None, p, [])
          else
            case map_index cameraDeviceName (mCameraStatusMap p) of
              (st, m') \<Rightarrow>
                let p' = p\<lparr>mCameraStatusMap := m'\<rparr>;
                    path = (case cameraDevicePath of Some x \<Rightarrow> x | None \<Rightarrow> [])
                in
                if st \<noteq> PRESENT then Inr (ILLEGAL_ARGUMENT, None, p', [])
                else if mPreferredHal3MinorVersion \<noteq> 4 \<and> mPreferredHal3MinorVersion \<noteq> 5
                        \<and> mPreferredHal3MinorVersion \<noteq> 6
                  then Inr (INTERNAL_ERROR, None, p', [ALOGE ''Unknown HAL minor version''])
                else if init_failed env path
                  then Inr (INTERNAL_ERROR, None, p',
                            [make_ExternalCameraDevice path, ALOGE ''camera device init failed''])
                else
                  Inr (OK,
                       Some (if mPreferredHal3MinorVersion = 4 then ExternalCameraDevice_3_4 path
                             else if mPreferredHal3MinorVersion = 5 then ExternalCameraDevice_3_5 path
                             else ExternalCameraDevice_3_6 path),
                       p', [make_ExternalCameraDevice path]))"

section \<open>States reached by calls made in turn\<close>

text \<open>
  A provider starts with an empty map and no callback. \<^verbatim>\<open>serial_reachable\<close> holds the states
  it passes through when every call runs to its end before the next one begins: each rule
  is one whole call of \<^verbatim>\<open>setCallback\<close>, \<^verbatim>\<open>addExternalCamera\<close>, \<^verbatim>\<open>deviceRemoved\<close> or
  \<^verbatim>\<open>getCameraDeviceInterface\<close> (which reads the map with \<^verbatim>\<open>operator[]\<close>). These are not all
  the states of the running program, whose calls overlap; those are the subject of the
  next section.
\<close>

definition initial_provider :: provider where
  "initial_provider = \<lparr>mCameraStatusMap = [], mCallback = None\<rparr>"

inductive serial_reachable :: "string \<Rightarrow> nat \<Rightarrow> ExternalCameraConfig \<Rightarrow> provider \<Rightarrow> bool"
  for version :: string and prefixLen :: nat and cfg :: ExternalCameraConfig where
  reach_initial: "serial_reachable version prefixLen cfg initial_provider"
| reach_setCallback:
    "serial_reachable version prefixLen cfg p \<Longrightarrow>
     serial_reachable version prefixLen cfg (fst (snd (setCallback cb p)))"
| reach_addExternalCamera:
    "serial_reachable version prefixLen cfg p \<Longrightarrow>
     serial_reachable version prefixLen cfg (fst (addExternalCamera version prefixLen cfg devName p))"
| reach_deviceRemoved:
    "serial_reachable version prefixLen cfg p \<Longrightarrow>
     serial_reachable version prefixLen cfg (fst (deviceRemoved version prefixLen cfg devName p))"
| reach_hidl_deviceRemoved:
    "serial_reachable version prefixLen cfg p \<Longrightarrow>
     serial_reachable version prefixLen cfg (fst (hidl_deviceRemoved version prefixLen cfg devName p))"
| reach_aidl_getCameraDeviceInterface:
    "serial_reachable version prefixLen cfg p \<Longrightarrow>
     aidl_getCameraDeviceInterface env cfg given name p = Inr (st, dev, p', es) \<Longrightarrow>
     serial_reachable version prefixLen cfg p'"
| reach_hidl_getCameraDeviceInterface_V3_x:
    "serial_reachable version prefixLen cfg p \<Longrightarrow>
     hidl_getCameraDeviceInterface_V3_x env cfg minor name p = Inr (st, dev, p', es) \<Longrightarrow>
     serial_reachable version prefixLen cfg p'"

section \<open>Calls that overlap in time\<close>

text \<open>
  The provider is called from two threads: the request thread (\<^verbatim>\<open>setCallback\<close>,
  \<^verbatim>\<open>getCameraDeviceInterface\<close>) and the hot-plug thread (\<^verbatim>\<open>addExternalCamera\<close>,
  \<^verbatim>\<open>deviceRemoved\<close>). \<^verbatim>\<open>addExternalCamera\<close> and \<^verbatim>\<open>deviceRemoved\<close> hold \<^verbatim>\<open>mLock\<close> from their first
  statement to their last, so each of them is one step. \<^verbatim>\<open>setCallback\<close> holds \<^verbatim>\<open>mLock\<close> only
  for the block that assigns \<^verbatim>\<open>mCallback\<close>, and \<^verbatim>\<open>getCameraDeviceInterface\<close> never takes it,
  so the hot-plug thread can run between their parts.

  \<^verbatim>\<open>setCallback\<close> in two parts: the block under \<^verbatim>\<open>mLock\<close>, and the rest, which reads the
  members \<^verbatim>\<open>mCallback\<close> and \<^verbatim>\<open>mCameraStatusMap\<close> as they are by then.
\<close>

definition setCallback_locked :: "callback option \<Rightarrow> provider \<Rightarrow> provider" where
  "setCallback_locked cb p = p\<lparr>mCallback := cb\<rparr>"

definition setCallback_unlocked :: "provider \<Rightarrow> Status \<times> effect list" where
  "setCallback_unlocked p =
     (case mCallback p of
        None \<Rightarrow> (OK, [])
      | Some c \<Rightarrow> (OK, map (\<lambda>pair. cameraDeviceStatusChange c (fst pair) (snd pair))
                           (mCameraStatusMap p)))"

text \<open>
  The AIDL \<^verbatim>\<open>getCameraDeviceInterface\<close> in two parts: up to and including the test
  \<^verbatim>\<open>mCameraStatusMap.count(name) == 0\<close>, which either ends the call with a status or goes
  on with the device path; and from \<^verbatim>\<open>mCameraStatusMap[name]\<close> to the end.
\<close>

datatype resolve_progress = resolve_returns Status | resolve_continues "string option"

definition aidl_getCameraDeviceInterface_count ::
  "ExternalCameraConfig \<Rightarrow> bool \<Rightarrow> string \<Rightarrow> provider \<Rightarrow> cpp_exception + resolve_progress" where
  "aidl_getCameraDeviceInterface_count cfg aidl_return_given in_cameraDeviceName p =
     (if \<not> aidl_return_given then Inr (resolve_returns ILLEGAL_ARGUMENT)
      else
        case matchDeviceName (cameraIdOffset cfg) in_cameraDeviceName True True of
          Inl e \<Rightarrow> Inl e
        | Inr (match, deviceVersion, cameraDevicePath) \<Rightarrow>
            if \<not> match then Inr (resolve_returns ILLEGAL_ARGUMENT)
            else if map_count in_cameraDeviceName (mCameraStatusMap p) = 0
              then Inr (resolve_returns ILLEGAL_ARGUMENT)
            else Inr (resolve_continues cameraDevicePath))"

definition aidl_getCameraDeviceInterface_index ::
  "environment \<Rightarrow> string \<Rightarrow> string option \<Rightarrow> provider \<Rightarrow>
     Status \<times> ICameraDevice option \<times> provider \<times> effect list" where
  "aidl_getCameraDeviceInterface_index env in_cameraDeviceName cameraDevicePath p =
     (case map_index in_cameraDeviceName (mCameraStatusMap p) of
        (st, m') \<Rightarrow>
          let p' = p\<lparr>mCameraStatusMap := m'\<rparr>;
              path = (case cameraDevicePath of Some x \<Rightarrow> x | None \<Rightarrow> [])
          in
          if st \<noteq> PRESENT then (ILLEGAL_ARGUMENT, None, p', [])
          else if init_failed env path
            then (INTERNAL_ERROR, None, p',
                  [make_ExternalCameraDevice path, ALOGE ''camera device init failed''])
          else (OK, Some (ExternalCameraDevice path), p', [make_ExternalCameraDevice path]))"

text \<open>
  The AIDL provider with its two threads. \<^verbatim>\<open>request\<close> says where the request thread is:
  in no call, in \<^verbatim>\<open>setCallback\<close> past the locked block, or in \<^verbatim>\<open>getCameraDeviceInterface\<close>
  past \<^verbatim>\<open>count\<close> (with the name asked for and the path parsed from it). \<^verbatim>\<open>trace\<close> holds the
  effects of both threads in the order they happen, \<^verbatim>\<open>answers\<close> the status of every request
  that has returned.
\<close>

datatype request_thread =
    in_no_call
  | in_setCallback
  | in_getCameraDeviceInterface string "string option"

record system =
  shared :: provider
  request :: request_thread
  trace :: "effect list"
  answers :: "Status list"

definition initial_system :: system where
  "initial_system = \<lparr>shared = initial_provider, request = in_no_call, trace = [], answers = []\<rparr>"

text \<open>
  What may happen next: the hot-plug thread makes a whole call; the request thread enters a
  call and runs its first part; the request thread runs the rest of the call it is in. A
  step that cannot happen where the request thread is, and a call that ends in an
  exception, give \<^verbatim>\<open>None\<close>.

  Every run is a run of the program. The program has more: the loop of \<^verbatim>\<open>setCallback\<close> can
  also be overtaken between two of its iterations, where a change of the map invalidates
  the iterator; no step stands for that.
\<close>

datatype action =
    hotplug_addExternalCamera string
  | hotplug_deviceRemoved string
  | request_setCallback "callback option"
  | request_getCameraDeviceInterface string
  | request_goes_on

fun aidl_step ::
  "string \<Rightarrow> environment \<Rightarrow> ExternalCameraConfig \<Rightarrow> action \<Rightarrow> system \<Rightarrow> system option" where
  "aidl_step kDeviceVersion env cfg (hotplug_addExternalCamera devName) s =
     (case aidl_addExternalCamera kDeviceVersion cfg devName (shared s) of
        (p', es) \<Rightarrow> Some (s\<lparr>shared := p', trace := trace s @ es\<rparr>))"
| "aidl_step kDeviceVersion env cfg (hotplug_deviceRemoved devName) s =
     (case aidl_deviceRemoved kDeviceVersion cfg devName (shared s) of
        (p', es) \<Rightarrow> Some (s\<lparr>shared := p', trace := trace s @ es\<rparr>))"
| "aidl_step kDeviceVersion env cfg (request_setCallback cb) s =
     (case request s of
        in_no_call \<Rightarrow>
          Some (s\<lparr>shared := setCallback_locked cb (shared s), request := in_setCallback\<rparr>)
      | in_setCallback \<Rightarrow> None
      | in_getCameraDeviceInterface name path \<Rightarrow> None)"
| "aidl_step kDeviceVersion env cfg (request_getCameraDeviceInterface name) s =
     (case request s of
        in_no_call \<Rightarrow>
          (case aidl_getCameraDeviceInterface_count cfg True name (shared s) of
             Inl e \<Rightarrow> None
           | Inr (resolve_returns st) \<Rightarrow> Some (s\<lparr>answers := answers s @ [st]\<rparr>)
           | Inr (resolve_continues path) \<Rightarrow>
               Some (s\<lparr>request := in_getCameraDeviceInterface name path\<rparr>))
      | in_setCallback \<Rightarrow> None
      | in_getCameraDeviceInterface name' path \<Rightarrow> None)"
| "aidl_step kDeviceVersion env cfg request_goes_on s =
     (case request s of
        in_no_call \<Rightarrow> None
      | in_setCallback \<Rightarrow>
          (case setCallback_unlocked (shared s) of
             (st, es) \<Rightarrow>
               Some (s\<lparr>request := in_no_call, trace := trace s @ es, answers := answers s @ [st]\<rparr>))
      | in_getCameraDeviceInterface name path \<Rightarrow>
          (case aidl_getCameraDeviceInterface_index env name path (shared s) of
             (st, dev, p', es) \<Rightarrow>
               Some (s\<lparr>shared := p', request := in_no_call, trace := trace s @ es,
                       answers := answers s @ [st]\<rparr>)))"

fun aidl_run ::
  "string \<Rightarrow> environment \<Rightarrow> ExternalCameraConfig \<Rightarrow> action list \<Rightarrow> system \<Rightarrow> system option" where
  "aidl_run kDeviceVersion env cfg [] s = Some s"
| "aidl_run kDeviceVersion env cfg (a # schedule) s =
     (case aidl_step kDeviceVersion env cfg a s of
        None \<Rightarrow> None
      | Some s' \<Rightarrow> aidl_run kDeviceVersion env cfg schedule s')"

section \<open>Classification: isExternalDevice\<close>

definition kDevicePath :: string where
  "kDevicePath = ''/dev/''"

definition kPrefix :: string where
  "kPrefix = ''video''"

definition kPrefixLen :: nat where
  "kPrefixLen = length kPrefix"

definition kMaxDevicePathLen :: nat where
  "kMaxDevicePathLen = 256"

definition V4L2_CAP_VIDEO_CAPTURE :: "32 word" where
  "V4L2_CAP_VIDEO_CAPTURE = 0x00000001"

definition V4L2_CAP_VIDEO_CAPTURE_MPLANE :: "32 word" where
  "V4L2_CAP_VIDEO_CAPTURE_MPLANE = 0x00001000"

definition IN_CREATE :: "32 word" where
  "IN_CREATE = 0x00000100"

definition IN_DELETE :: "32 word" where
  "IN_DELETE = 0x00000200"

text \<open>\<^verbatim>\<open>strstr(haystack, needle) != NULL\<close>: the needle occurs somewhere in the haystack.\<close>

fun strstr :: "string \<Rightarrow> string \<Rightarrow> bool" where
  "strstr [] needle = (needle = [])"
| "strstr (c # cs) needle = (take (length needle) (c # cs) = needle \<or> strstr cs needle)"

text \<open>
  \<^verbatim>\<open>a.compare(0, a.length(), b, 0, a.length()) == 0\<close>: the first \<^verbatim>\<open>a.length()\<close> characters
  of \<^verbatim>\<open>b\<close> are \<^verbatim>\<open>a\<close>.
\<close>

definition compare_prefix :: "string \<Rightarrow> string \<Rightarrow> bool" where
  "compare_prefix a b = (take (length a) b = a)"

definition video_decoder_name :: string where
  "video_decoder_name = ''amphion-vpu-decoder''"

definition video_encoder_name :: string where
  "video_encoder_name = ''amphion-vpu-encoder''"

definition propName :: string where
  "propName = ''mxc_isi.6.capture''"

text \<open>
  \<^verbatim>\<open>isExternalDevice(devName, sysClassName, isHdmiRx)\<close>. The result is the returned flag,
  the value \<^verbatim>\<open>*isHdmiRx\<close> has at the return (a caller that passes \<^verbatim>\<open>NULL\<close> ignores it), and
  the calls made. The part after the capability query is the same in both providers.
\<close>

definition classify_driver ::
  "environment \<Rightarrow> string \<Rightarrow> string \<Rightarrow> v4l2_capability \<Rightarrow> bool \<times> bool \<times> effect list" where
  "classify_driver env devName sysClassName vidCap =
     (if strstr (driver vidCap) ''uvc'' then
        (if enum_fmt_ok env devName then (True, False, [VIDIOC_ENUM_FMT devName])
         else (False, False, [VIDIOC_ENUM_FMT devName, ALOGE ''uvc meta device'']))
      else if strstr (driver vidCap) ''cap'' then
        (case file_content env sysClassName of
           None \<Rightarrow> (False, False, [ReadFileToString sysClassName, ALOGE ''cannot read video device name''])
         | Some buffer \<Rightarrow>
             if compare_prefix propName buffer then (True, True, [ReadFileToString sysClassName])
             else (False, False, [ReadFileToString sysClassName]))
      else (False, False, []))"

definition hidl_isExternalDevice ::
  "environment \<Rightarrow> string \<Rightarrow> string \<Rightarrow> bool \<times> bool \<times> effect list" where
  "hidl_isExternalDevice env devName sysClassName =
     (if \<not> open_nonblock_ok env devName
        then (False, False, [open_O_RDWR_O_NONBLOCK devName, ALOGE ''open dev path failed''])
      else
        case querycap env devName of
          None \<Rightarrow> (False, False, [open_O_RDWR_O_NONBLOCK devName, VIDIOC_QUERYCAP devName,
                                   ALOGE ''QUERYCAP dev path failed''])
        | Some vidCap \<Rightarrow>
            (case classify_driver env devName sysClassName vidCap of
               (r, isHdmiRx, es) \<Rightarrow>
                 (r, isHdmiRx, [open_O_RDWR_O_NONBLOCK devName, VIDIOC_QUERYCAP devName] @ es)))"

definition aidl_isExternalDevice ::
  "environment \<Rightarrow> string \<Rightarrow> string \<Rightarrow> bool \<times> bool \<times> effect list" where
  "aidl_isExternalDevice env devName sysClassName =
     (case file_content env sysClassName of
        None \<Rightarrow> (False, False, [ReadFileToString sysClassName, ALOGE ''cannot read video device name''])
      | Some video_name \<Rightarrow>
          if compare_prefix video_decoder_name video_name \<or> compare_prefix video_encoder_name video_name
            then (False, False, [ReadFileToString sysClassName])
          else
            case hidl_isExternalDevice env devName sysClassName of
              (r, isHdmiRx, es) \<Rightarrow> (r, isHdmiRx, [ReadFileToString sysClassName] @ es))"

section \<open>deviceAdded and the scan of existing nodes\<close>

definition deviceAdded ::
  "string \<Rightarrow> nat \<Rightarrow> environment \<Rightarrow> ExternalCameraConfig \<Rightarrow> string \<Rightarrow> provider \<Rightarrow>
     provider \<times> effect list" where
  "deviceAdded version prefixLen env cfg devName p =
     (if \<not> open_ok env devName
        then (p, [open_O_RDWR devName, ALOGE ''open v4l2 device failed''])
      else
        case querycap env devName of
          None \<Rightarrow> (p, [open_O_RDWR devName, VIDIOC_QUERYCAP devName, ALOGE ''v4l2 QUERYCAP failed''])
        | Some capability \<Rightarrow>
            if device_caps capability AND (V4L2_CAP_VIDEO_CAPTURE OR V4L2_CAP_VIDEO_CAPTURE_MPLANE) = 0
              then (p, [open_O_RDWR devName, VIDIOC_QUERYCAP devName,
                        ALOGW ''device does not support VIDEO_CAPTURE''])
            else if init_failed env devName
              then (p, [open_O_RDWR devName, VIDIOC_QUERYCAP devName,
                        make_ExternalCameraDevice devName,
                        ALOGW ''Attempt to init camera device failed''])
            else
              case addExternalCamera version prefixLen cfg devName p of
                (p', es) \<Rightarrow>
                  (p', [open_O_RDWR devName, VIDIOC_QUERYCAP devName,
                        make_ExternalCameraDevice devName] @ es))"

text \<open>
  The two paths built for a directory entry or an event name: \<^verbatim>\<open>snprintf\<close> into a buffer
  of \<^verbatim>\<open>kMaxDevicePathLen\<close> bytes cuts the node path, \<^verbatim>\<open>sprintf\<close> does not cut the attribute
  path (a name that overflows its buffer is outside the model).
\<close>

definition v4l2DevicePath :: "string \<Rightarrow> string" where
  "v4l2DevicePath d_name = take (kMaxDevicePathLen - 1) (kDevicePath @ d_name)"

definition mCamDevice :: "string \<Rightarrow> string" where
  "mCamDevice d_name = ''/sys/class/video4linux/'' @ d_name @ ''/name''"

text \<open>
  The classifier is a parameter of the loops below: \<^verbatim>\<open>aidl_isExternalDevice env\<close> or
  \<^verbatim>\<open>hidl_isExternalDevice env\<close>. So is \<^verbatim>\<open>deviceAdded\<close>, which carries the version text and the
  prefix length of the provider.
\<close>

type_synonym classifier = "string \<Rightarrow> string \<Rightarrow> bool \<times> bool \<times> effect list"

type_synonym registrar = "string \<Rightarrow> provider \<Rightarrow> provider \<times> effect list"

text \<open>
  The loop over \<^verbatim>\<open>readdir\<close> that registers the nodes present before the watch starts
  (\<^verbatim>\<open>updateAttachedCameras\<close> in the AIDL provider, the start of \<^verbatim>\<open>threadLoop\<close> in the HIDL
  one).
\<close>

fun scan_existing ::
  "classifier \<Rightarrow> registrar \<Rightarrow> ExternalCameraConfig \<Rightarrow> string list \<Rightarrow> provider \<Rightarrow>
     provider \<times> effect list" where
  "scan_existing isExternal added cfg [] p = (p, [])"
| "scan_existing isExternal added cfg (d_name # rest) p =
     (if take kPrefixLen d_name = kPrefix then
        (let deviceId = drop kPrefixLen d_name in
         if deviceId \<notin> set (mInternalDevices cfg) then
           (case isExternal (v4l2DevicePath d_name) (mCamDevice d_name) of
              (r, isHdmiRx, es) \<Rightarrow>
                if r then
                  (case added (v4l2DevicePath d_name) p of
                     (p', es') \<Rightarrow>
                       (case scan_existing isExternal added cfg rest p' of
                          (p'', es'') \<Rightarrow> (p'', es @ es' @ es'')))
                else
                  (case scan_existing isExternal added cfg rest p of
                     (p'', es'') \<Rightarrow> (p'', es @ es'')))
         else scan_existing isExternal added cfg rest p)
      else scan_existing isExternal added cfg rest p)"

definition updateAttachedCameras ::
  "classifier \<Rightarrow> registrar \<Rightarrow> environment \<Rightarrow> ExternalCameraConfig \<Rightarrow> provider \<Rightarrow>
     bool \<times> provider \<times> effect list" where
  "updateAttachedCameras isExternal added env cfg p =
     (case dev_dir env of
        None \<Rightarrow> (False, p, [opendir kDevicePath, ALOGE ''cannot open /dev/''])
      | Some entries \<Rightarrow>
          (case scan_existing isExternal added cfg entries p of
             (p', es) \<Rightarrow> (True, p', opendir kDevicePath # es)))"

section \<open>The hot-plug thread\<close>

text \<open>
  One record read from the inotify descriptor. The events of a read are handled one
  after the other; each is paired with the world as it is while it is handled.
\<close>

record inotify_event =
  ev_wd :: int
  ev_mask :: "32 word"
  ev_name :: string

datatype loop_control = Continue | ReturnFalse

text \<open>
  \<^verbatim>\<open>mHdmiRxNode\<close> is a \<^verbatim>\<open>char\<close> array of \<^verbatim>\<open>kMaxDevicePathLen\<close> bytes, local to \<^verbatim>\<open>threadLoop\<close> and
  not initialised; the model carries its bytes. \<^verbatim>\<open>strncpy(dst, src, n)\<close> writes the first
  \<^verbatim>\<open>n\<close> bytes of \<^verbatim>\<open>dst\<close>: the characters of \<^verbatim>\<open>src\<close>, then NUL bytes if \<^verbatim>\<open>src\<close> is shorter than
  \<^verbatim>\<open>n\<close>. The bytes of \<^verbatim>\<open>dst\<close> after the first \<^verbatim>\<open>n\<close> stay as they were.
\<close>

definition strncpy :: "string \<Rightarrow> string \<Rightarrow> nat \<Rightarrow> string" where
  "strncpy dst src n = take n (src @ replicate (n - length src) (CHR 0x00)) @ drop n dst"

text \<open>
  The search for the HDMI receiver node after a \<^verbatim>\<open>cec\<close> entry was created: the loop over
  \<^verbatim>\<open>readdir\<close>, left by \<^verbatim>\<open>break\<close> at the first node that classifies as a receiver.
\<close>

fun find_hdmi_rx ::
  "classifier \<Rightarrow> registrar \<Rightarrow> string list \<Rightarrow> provider \<Rightarrow> string \<Rightarrow>
     provider \<times> string \<times> effect list" where
  "find_hdmi_rx isExternal added [] p mHdmiRxNode = (p, mHdmiRxNode, [])"
| "find_hdmi_rx isExternal added (d_name # rest) p mHdmiRxNode =
     (if take kPrefixLen d_name = kPrefix then
        (case isExternal (v4l2DevicePath d_name) (mCamDevice d_name) of
           (r, isHdmiRx, es) \<Rightarrow>
             if r \<and> isHdmiRx then
               (case added (v4l2DevicePath d_name) p of
                  (p', es') \<Rightarrow>
                    (p',
                     strncpy mHdmiRxNode (v4l2DevicePath d_name) (length (v4l2DevicePath d_name)),
                     usleep 800000 # es @ es'))
             else
               (case find_hdmi_rx isExternal added rest p mHdmiRxNode of
                  (p', node', es'') \<Rightarrow> (p', node', usleep 800000 # es @ es'')))
      else find_hdmi_rx isExternal added rest p mHdmiRxNode)"

definition handle_cec_event ::
  "classifier \<Rightarrow> registrar \<Rightarrow> registrar \<Rightarrow> environment \<Rightarrow> inotify_event \<Rightarrow> provider \<Rightarrow> string \<Rightarrow>
     loop_control \<times> provider \<times> string \<times> effect list" where
  "handle_cec_event isExternal added removed env event p mHdmiRxNode =
     (if ev_mask event AND IN_CREATE \<noteq> 0 then
        (case dev_dir env of
           None \<Rightarrow> (ReturnFalse, p, mHdmiRxNode, [opendir kDevicePath, ALOGE ''cannot open /dev/''])
         | Some entries \<Rightarrow>
             (case find_hdmi_rx isExternal added entries p mHdmiRxNode of
                (p', node', es) \<Rightarrow> (Continue, p', node', opendir kDevicePath # es)))
      else if ev_mask event AND IN_DELETE \<noteq> 0 then
        (case removed mHdmiRxNode p of
           (p', es) \<Rightarrow> (Continue, p', mHdmiRxNode, es))
      else (Continue, p, mHdmiRxNode, []))"

definition video_created ::
  "classifier \<Rightarrow> registrar \<Rightarrow> inotify_event \<Rightarrow> provider \<Rightarrow> provider \<times> effect list" where
  "video_created isExternal added event p =
     (case isExternal (v4l2DevicePath (ev_name event)) (mCamDevice (ev_name event)) of
        (r, isHdmiRx, es) \<Rightarrow>
          if r then
            (case added (v4l2DevicePath (ev_name event)) p of
               (p', es') \<Rightarrow> (p', usleep 100000 # es @ es'))
          else (p, usleep 100000 # es))"

text \<open>The AIDL provider: the \<^verbatim>\<open>cec\<close> test comes first and does not end the iteration.\<close>

definition aidl_handle_event ::
  "classifier \<Rightarrow> registrar \<Rightarrow> registrar \<Rightarrow> environment \<Rightarrow> ExternalCameraConfig \<Rightarrow> int \<Rightarrow>
     inotify_event \<Rightarrow> provider \<Rightarrow> string \<Rightarrow> loop_control \<times> provider \<times> string \<times> effect list" where
  "aidl_handle_event isExternal added removed env cfg mWd event p mHdmiRxNode =
     (if ev_wd event \<noteq> mWd then (Continue, p, mHdmiRxNode, [])
      else
        case (if take 3 (ev_name event) = ''cec''
              then handle_cec_event isExternal added removed env event p mHdmiRxNode
              else (Continue, p, mHdmiRxNode, [])) of
          (ctl, p1, node1, es1) \<Rightarrow>
            if ctl = ReturnFalse then (ReturnFalse, p1, node1, es1)
            else if take kPrefixLen (ev_name event) \<noteq> kPrefix then (Continue, p1, node1, es1)
            else if drop kPrefixLen (ev_name event) \<in> set (mInternalDevices cfg)
              then (Continue, p1, node1, es1)
            else if ev_mask event AND IN_CREATE \<noteq> 0 then
              (case video_created isExternal added event p1 of
                 (p2, es2) \<Rightarrow> (Continue, p2, node1, es1 @ es2))
            else if ev_mask event AND IN_DELETE \<noteq> 0 then
              (case removed (v4l2DevicePath (ev_name event)) p1 of
                 (p2, es2) \<Rightarrow> (Continue, p2, node1, es1 @ es2))
            else (Continue, p1, node1, es1))"

text \<open>
  The HIDL provider: the \<^verbatim>\<open>video\<close> test comes first, the \<^verbatim>\<open>cec\<close> test is its \<^verbatim>\<open>else\<close>; the
  tests of \<^verbatim>\<open>IN_CREATE\<close> and \<^verbatim>\<open>IN_DELETE\<close> for a video node are two statements.
\<close>

definition hidl_handle_event ::
  "classifier \<Rightarrow> registrar \<Rightarrow> registrar \<Rightarrow> environment \<Rightarrow> ExternalCameraConfig \<Rightarrow> int \<Rightarrow>
     inotify_event \<Rightarrow> provider \<Rightarrow> string \<Rightarrow> loop_control \<times> provider \<times> string \<times> effect list" where
  "hidl_handle_event isExternal added removed env cfg mWd event p mHdmiRxNode =
     (if ev_wd event = mWd then
        (if take kPrefixLen (ev_name event) = kPrefix then
           (if drop kPrefixLen (ev_name event) \<notin> set (mInternalDevices cfg) then
              (case (if ev_mask event AND IN_CREATE \<noteq> 0
                     then video_created isExternal added event p else (p, [])) of
                 (p1, es1) \<Rightarrow>
                   (case (if ev_mask event AND IN_DELETE \<noteq> 0
                          then removed (v4l2DevicePath (ev_name event)) p1 else (p1, [])) of
                      (p2, es2) \<Rightarrow> (Continue, p2, mHdmiRxNode, es1 @ es2)))
            else (Continue, p, mHdmiRxNode, []))
         else if take 3 (ev_name event) = ''cec''
           then handle_cec_event isExternal added removed env event p mHdmiRxNode
         else (Continue, p, mHdmiRxNode, []))
      else (Continue, p, mHdmiRxNode, []))"

text \<open>The loop over the events of one read; \<^verbatim>\<open>return false\<close> leaves it.\<close>

fun process_events ::
  "(environment \<Rightarrow> inotify_event \<Rightarrow> provider \<Rightarrow> string \<Rightarrow>
      loop_control \<times> provider \<times> string \<times> effect list) \<Rightarrow>
   (environment \<times> inotify_event) list \<Rightarrow> provider \<Rightarrow> string \<Rightarrow>
     loop_control \<times> provider \<times> string \<times> effect list" where
  "process_events handler [] p node = (Continue, p, node, [])"
| "process_events handler ((env, event) # rest) p node =
     (case handler env event p node of
        (ctl, p1, node1, es1) \<Rightarrow>
          if ctl = ReturnFalse then (ReturnFalse, p1, node1, es1)
          else
            (case process_events handler rest p1 node1 of
               (ctl2, p2, node2, es2) \<Rightarrow> (ctl2, p2, node2, es1 @ es2)))"

definition aidl_handler ::
  "string \<Rightarrow> ExternalCameraConfig \<Rightarrow> int \<Rightarrow> environment \<Rightarrow> inotify_event \<Rightarrow> provider \<Rightarrow> string \<Rightarrow>
     loop_control \<times> provider \<times> string \<times> effect list" where
  "aidl_handler kDeviceVersion cfg mWd env event p mHdmiRxNode =
     aidl_handle_event (aidl_isExternalDevice env)
       (deviceAdded kDeviceVersion aidl_kDevicePrefixLen env cfg)
       (aidl_deviceRemoved kDeviceVersion cfg) env cfg mWd event p mHdmiRxNode"

definition hidl_handler ::
  "nat \<Rightarrow> int \<Rightarrow> ExternalCameraConfig \<Rightarrow> int \<Rightarrow> environment \<Rightarrow> inotify_event \<Rightarrow> provider \<Rightarrow> string \<Rightarrow>
     loop_control \<times> provider \<times> string \<times> effect list" where
  "hidl_handler sizeof_ptr mPreferredHal3MinorVersion cfg mWd env event p mHdmiRxNode =
     hidl_handle_event (hidl_isExternalDevice env)
       (deviceAdded (hidl_deviceVersion mPreferredHal3MinorVersion)
          (hidl_kDevicePrefixLen sizeof_ptr) env cfg)
       (hidl_deviceRemoved_2_4 sizeof_ptr mPreferredHal3MinorVersion cfg)
       env cfg mWd event p mHdmiRxNode"

text \<open>
  One call of the AIDL \<^verbatim>\<open>threadLoop\<close> that reads events: \<^verbatim>\<open>mHdmiRxNode\<close> is a local of the
  call, so its bytes at the start are whatever the stack holds (\<^verbatim>\<open>stack\<close>) and are lost
  at the return. The flag is \<^verbatim>\<open>threadLoop\<close>'s return value.
\<close>

definition aidl_threadLoop ::
  "string \<Rightarrow> ExternalCameraConfig \<Rightarrow> int \<Rightarrow> string \<Rightarrow> (environment \<times> inotify_event) list \<Rightarrow>
     provider \<Rightarrow> bool \<times> provider \<times> effect list" where
  "aidl_threadLoop kDeviceVersion cfg mWd stack events p =
     (case process_events (aidl_handler kDeviceVersion cfg mWd) events p stack of
        (ctl, p', node', es) \<Rightarrow> (ctl = Continue, p', es))"

text \<open>
  The HIDL \<^verbatim>\<open>threadLoop\<close> is called once: it scans the existing nodes and then handles
  events for as long as the process lives; \<^verbatim>\<open>mHdmiRxNode\<close> is a local of that one call. The
  model runs it over the events of a finite stretch of time.
\<close>

definition hidl_threadLoop ::
  "nat \<Rightarrow> int \<Rightarrow> ExternalCameraConfig \<Rightarrow> int \<Rightarrow> string \<Rightarrow> environment \<Rightarrow>
     (environment \<times> inotify_event) list \<Rightarrow> provider \<Rightarrow> loop_control \<times> provider \<times> string \<times> effect list" where
  "hidl_threadLoop sizeof_ptr mPreferredHal3MinorVersion cfg mWd stack env0 events p =
     (case updateAttachedCameras (hidl_isExternalDevice env0)
             (deviceAdded (hidl_deviceVersion mPreferredHal3MinorVersion)
                (hidl_kDevicePrefixLen sizeof_ptr) env0 cfg) env0 cfg p of
        (opened, p0, es0) \<Rightarrow>
          if \<not> opened then (ReturnFalse, p0, stack, es0)
          else
            (case process_events (hidl_handler sizeof_ptr mPreferredHal3MinorVersion cfg mWd)
                    events p0 stack of
               (ctl, p1, node1, es1) \<Rightarrow> (ctl, p1, node1, es0 @ es1)))"

section \<open>Concrete inputs\<close>

text \<open>
  The configuration and the states at which the theorems below are evaluated: an id
  offset of 2, node 0 internal, a callback attached.
\<close>

definition example_cfg :: ExternalCameraConfig where
  "example_cfg = \<lparr>cameraIdOffset = 2, mInternalDevices = [''0'']\<rparr>"

definition example_provider :: provider where
  "example_provider = \<lparr>mCameraStatusMap = [], mCallback = Some 7\<rparr>"

definition example_present :: provider where
  "example_present = \<lparr>mCameraStatusMap = [(''device@3.4/external/7'', PRESENT)], mCallback = Some 7\<rparr>"

text \<open>The invariant of the status map: one entry for a name, and every entry \<^verbatim>\<open>PRESENT\<close>.\<close>

definition registry_inv :: "provider \<Rightarrow> bool" where
  "registry_inv p =
     (distinct (map fst (mCameraStatusMap p)) \<and> list_all (\<lambda>e. snd e = PRESENT) (mCameraStatusMap p))"

definition example_two_plugged_one_removed :: provider where
  "example_two_plugged_one_removed =
     fst (deviceRemoved ''3.4'' 10 example_cfg ''/dev/video5''
       (fst (addExternalCamera ''3.4'' 10 example_cfg ''/dev/video6''
         (fst (addExternalCamera ''3.4'' 10 example_cfg ''/dev/video5'' initial_provider)))))"

text \<open>A world in which every node is a working UVC camera, and one in which no device object
  can be initialised.\<close>

definition example_env :: environment where
  "example_env =
     \<lparr>file_content = (\<lambda>f. Some ''UVC Camera''),
      open_nonblock_ok = (\<lambda>f. True),
      open_ok = (\<lambda>f. True),
      querycap = (\<lambda>f. Some \<lparr>driver = ''uvcvideo'', device_caps = 1\<rparr>),
      enum_fmt_ok = (\<lambda>f. True),
      dev_dir = Some [''null'', ''video0'', ''video5''],
      init_failed = (\<lambda>f. False)\<rparr>"

definition example_env_init_fails :: environment where
  "example_env_init_fails = example_env\<lparr>init_failed := (\<lambda>f. True)\<rparr>"

text \<open>The effects that are notifications to the callback.\<close>

fun is_notification :: "effect \<Rightarrow> bool" where
  "is_notification (cameraDeviceStatusChange c n s) = True"
| "is_notification e = False"

text \<open>
  A world in which every node answers like a UVC camera and carries the name of the
  decoder; worlds with an HDMI receiver at node \<^verbatim>\<open>n\<close> (the attribute file ends in a line feed);
  a world without nodes; the events; a buffer of NUL bytes.
\<close>

definition example_env_decoder :: environment where
  "example_env_decoder =
     example_env\<lparr>file_content := (\<lambda>f. Some (''amphion-vpu-decoder'' @ [CHR 0x0A]))\<rparr>"

definition example_env_receiver :: "string \<Rightarrow> environment" where
  "example_env_receiver n =
     \<lparr>file_content = (\<lambda>f. if f = mCamDevice (''video'' @ n)
                            then Some (''mxc_isi.6.capture'' @ [CHR 0x0A])
                            else Some (''mxc_isi.0.capture'' @ [CHR 0x0A])),
      open_nonblock_ok = (\<lambda>f. True),
      open_ok = (\<lambda>f. True),
      querycap = (\<lambda>f. Some \<lparr>driver = ''mxc-isi-cap'', device_caps = 0x1000\<rparr>),
      enum_fmt_ok = (\<lambda>f. False),
      dev_dir = Some [''cec0'', ''video0'', ''video'' @ n],
      init_failed = (\<lambda>f. False)\<rparr>"

definition example_env_no_nodes :: environment where
  "example_env_no_nodes = example_env\<lparr>dev_dir := Some []\<rparr>"

definition example_create_video0 :: inotify_event where
  "example_create_video0 = \<lparr>ev_wd = 1, ev_mask = IN_CREATE, ev_name = ''video0''\<rparr>"

definition example_create_video1 :: inotify_event where
  "example_create_video1 = \<lparr>ev_wd = 1, ev_mask = IN_CREATE, ev_name = ''video1''\<rparr>"

definition example_create_cec0 :: inotify_event where
  "example_create_cec0 = \<lparr>ev_wd = 1, ev_mask = IN_CREATE, ev_name = ''cec0''\<rparr>"

definition example_delete_cec0 :: inotify_event where
  "example_delete_cec0 = \<lparr>ev_wd = 1, ev_mask = IN_DELETE, ev_name = ''cec0''\<rparr>"

definition zeroed_buffer :: string where
  "zeroed_buffer = replicate kMaxDevicePathLen (CHR 0x00)"

text \<open>
  The state of \<^verbatim>\<open>example_present\<close> with no callback attached; a world whose only video node
  is the internal node 0, which answers as the HDMI receiver.
\<close>

definition example_present_no_callback :: provider where
  "example_present_no_callback =
     \<lparr>mCameraStatusMap = [(''device@3.4/external/7'', PRESENT)], mCallback = None\<rparr>"

definition example_env_internal_receiver :: environment where
  "example_env_internal_receiver = (example_env_receiver ''0'')\<lparr>dev_dir := Some [''cec0'', ''video0'']\<rparr>"

section \<open>Properties of the status map\<close>

lemma map_assign_same: "map_of m k = Some v \<Longrightarrow> map_assign k v m = m"
  by (simp add: map_assign_def update_triv)

lemma map_of_map_assign: "map_of (map_assign k v m) = (map_of m)(k \<mapsto> v)"
  by (simp add: map_assign_def update_conv')

lemma distinct_map_assign: "distinct (map fst m) \<Longrightarrow> distinct (map fst (map_assign k v m))"
  by (simp add: map_assign_def distinct_update)

lemma values_map_assign: "snd ` set (map_assign k v m) \<subseteq> insert v (snd ` set m)"
  unfolding map_assign_def by (induction m) auto

lemma count_entries_distinct:
  "distinct (map fst m) \<Longrightarrow> length (filter (\<lambda>e. fst e = k) m) = map_count k m"
  by (induction m) (auto simp: map_count_def image_iff)

lemma map_count_map_of: "map_count k m = (if map_of m k = None then 0 else 1)"
  by (simp add: map_count_def map_of_eq_None_iff)

lemma map_erase_absent: "k \<notin> fst ` set m \<Longrightarrow> map_erase k m = (m, 0)"
  by (simp add: map_erase_def map_count_def)

lemma map_erase_keys: "fst ` set (fst (map_erase k m)) = fst ` set m - {k}"
  by (auto simp: map_erase_def AList.delete_eq)

lemma distinct_map_erase: "distinct (map fst m) \<Longrightarrow> distinct (map fst (fst (map_erase k m)))"
  by (simp add: map_erase_def distinct_delete)

lemma values_map_erase: "snd ` set (fst (map_erase k m)) \<subseteq> snd ` set m"
  by (auto simp: map_erase_def AList.delete_eq)

lemma addExternalCamera_sel:
  "mCameraStatusMap (fst (addExternalCamera v n cfg d p)) =
     map_assign (externalDeviceName v n cfg d) PRESENT (mCameraStatusMap p)"
  "mCallback (fst (addExternalCamera v n cfg d p)) = mCallback p"
  "snd (addExternalCamera v n cfg d p) = notify (mCallback p) (externalDeviceName v n cfg d) PRESENT"
  by (simp_all add: addExternalCamera_def Let_def)

lemma addExternalCamera_present:
  assumes "map_of (mCameraStatusMap p) (externalDeviceName v n cfg d) = Some PRESENT"
  shows "addExternalCamera v n cfg d p =
           (p, notify (mCallback p) (externalDeviceName v n cfg d) PRESENT)"
  using assms by (simp add: addExternalCamera_def Let_def map_assign_same)

lemma deviceRemoved_sel:
  "mCameraStatusMap (fst (deviceRemoved v n cfg d p)) =
     fst (map_erase (externalDeviceName v n cfg d) (mCameraStatusMap p))"
  "mCallback (fst (deviceRemoved v n cfg d p)) = mCallback p"
  by (simp_all add: deviceRemoved_def Let_def split: prod.splits)

lemma hidl_deviceRemoved_state:
  "fst (hidl_deviceRemoved v n cfg d p) = fst (deviceRemoved v n cfg d p)"
proof (cases "externalDeviceName v n cfg d \<in> fst ` set (mCameraStatusMap p)")
  case True
  then have "map_of (mCameraStatusMap p) (externalDeviceName v n cfg d) \<noteq> None"
    by (simp add: map_of_eq_None_iff)
  then show ?thesis
    by (simp add: hidl_deviceRemoved_def deviceRemoved_def Let_def map_erase_def split: prod.splits)
next
  case False
  then have "map_of (mCameraStatusMap p) (externalDeviceName v n cfg d) = None"
    by (simp add: map_of_eq_None_iff)
  with False show ?thesis
    by (simp add: hidl_deviceRemoved_def deviceRemoved_def Let_def map_erase_def map_count_def)
qed

section \<open>Properties of the number conversions\<close>

lemma isdigit_char_of: "d < 10 \<Longrightarrow> isdigit (char_of (48 + d :: nat))"
  by (simp add: isdigit_def)

lemma digit_value_char_of: "d < 10 \<Longrightarrow> (of_char (char_of (48 + d :: nat)) :: nat) - 48 = d"
  by simp

lemma isdigit_not_isspace: "isdigit c \<Longrightarrow> \<not> isspace c"
  by (auto simp: isdigit_def isspace_def)

lemma isdigit_not_sign: "isdigit c \<Longrightarrow> c \<noteq> CHR ''-'' \<and> c \<noteq> CHR ''+''"
  by (auto simp: isdigit_def)

lemma isdigit_not_dot: "isdigit c \<Longrightarrow> c \<noteq> CHR ''.'' \<and> c \<noteq> CHR ''/''"
  by (auto simp: isdigit_def)

lemma isdigit_any_but_newline: "isdigit c \<Longrightarrow> any_but_newline c"
  by (auto simp: isdigit_def any_but_newline_def)

lemma minus_not_isspace: "\<not> isspace (CHR ''-'')" "\<not> isdigit (CHR ''-'')" "\<not> isdigit (CHR ''.'')" "\<not> isdigit (CHR ''/'')"
  by (simp_all add: isspace_def isdigit_def)

lemma digits_value_snoc: "digits_value (ds @ [c]) = 10 * digits_value ds + (of_char c - 48)"
  by (simp add: digits_value_def)

lemma to_string_nat_nonempty: "to_string_nat n \<noteq> []"
  by (subst to_string_nat.simps) simp

lemma to_string_nat_digits: "list_all isdigit (to_string_nat n)"
proof (induction n rule: to_string_nat.induct)
  case (1 n)
  show ?case
  proof (cases "n < 10")
    case True
    then show ?thesis
      by (subst to_string_nat.simps) (simp add: isdigit_char_of)
  next
    case False
    with 1 show ?thesis
      by (subst to_string_nat.simps) (simp add: isdigit_char_of)
  qed
qed

lemma digits_value_to_string_nat: "digits_value (to_string_nat n) = n"
proof (induction n rule: to_string_nat.induct)
  case (1 n)
  show ?case
  proof (cases "n < 10")
    case True
    then show ?thesis
      by (subst to_string_nat.simps) (simp add: digits_value_def)
  next
    case False
    with 1 have "digits_value (to_string_nat (n div 10)) = n div 10"
      by simp
    with False show ?thesis
      by (subst to_string_nat.simps) (simp add: digits_value_snoc)
  qed
qed

lemma takeWhile_stop:
  assumes "rest = [] \<or> \<not> P (hd rest)"
  shows "takeWhile P rest = []" and "dropWhile P rest = rest"
  using assms by (cases rest; simp)+

lemma takeWhile_all_then_stop:
  assumes "list_all P xs" and "rest = [] \<or> \<not> P (hd rest)"
  shows "takeWhile P (xs @ rest) = xs" and "dropWhile P (xs @ rest) = rest"
  using assms(1) by (induction xs) (simp_all add: takeWhile_stop [where rest = rest and P = P, OF assms(2)])

lemma strtol_scan_digits:
  assumes "list_all isdigit ds" and "ds \<noteq> []" and "rest = [] \<or> \<not> isdigit (hd rest)"
  shows "strtol_scan (ds @ rest) = (int (digits_value ds), length ds)"
proof -
  from assms obtain c cs where ds: "ds = c # cs" and c: "isdigit c"
    by (cases ds) auto
  have sp: "dropWhile isspace (ds @ rest) = ds @ rest"
    using c by (simp add: ds isdigit_not_isspace)
  have hd: "hd (ds @ rest) \<noteq> CHR ''-''" "hd (ds @ rest) \<noteq> CHR ''+''"
    using c by (simp_all add: ds isdigit_not_sign)
  show ?thesis
    using hd assms(2) by (simp add: strtol_scan_def sp Let_def takeWhile_all_then_stop [where P = isdigit, OF assms(1,3)])
qed

lemma strtol_scan_minus_digits:
  assumes "list_all isdigit ds" and "ds \<noteq> []" and "rest = [] \<or> \<not> isdigit (hd rest)"
  shows "strtol_scan (CHR ''-'' # ds @ rest) = (- int (digits_value ds), length ds)"
  by (simp add: strtol_scan_def minus_not_isspace Let_def takeWhile_all_then_stop [where P = isdigit, OF assms(1,3)])

lemma strtol_scan_to_string:
  assumes "rest = [] \<or> \<not> isdigit (hd rest)"
  shows "fst (strtol_scan (to_string i @ rest)) = i \<and> 0 < snd (strtol_scan (to_string i @ rest))"
proof (cases "i < 0")
  case True
  then show ?thesis
    using strtol_scan_minus_digits [OF to_string_nat_digits to_string_nat_nonempty assms, of "nat (- i)"]
    by (simp add: to_string_def digits_value_to_string_nat to_string_nat_nonempty)
next
  case False
  then show ?thesis
    using strtol_scan_digits [OF to_string_nat_digits to_string_nat_nonempty assms, of "nat i"]
    by (simp add: to_string_def digits_value_to_string_nat to_string_nat_nonempty)
qed

lemma wrap32_in_range: "INT_MIN \<le> x \<Longrightarrow> x \<le> INT_MAX \<Longrightarrow> wrap32 x = x"
  by (simp add: wrap32_def INT_MIN_def INT_MAX_def)

lemma wrap32_range: "INT_MIN \<le> wrap32 x \<and> wrap32 x \<le> INT_MAX"
proof -
  have "0 \<le> (x + 2 ^ 31) mod 2 ^ 32" "(x + 2 ^ 31) mod 2 ^ 32 < (2 ^ 32 :: int)"
    by simp_all
  then show ?thesis
    by (simp add: wrap32_def INT_MIN_def INT_MAX_def)
qed

lemma stoi_to_string:
  assumes "INT_MIN \<le> i" and "i \<le> INT_MAX"
  shows "stoi (to_string i) = Inr i"
  using strtol_scan_to_string [of "[]" i] assms
  by (cases "strtol_scan (to_string i)") (simp add: stoi_def)

lemma atoi_to_string:
  assumes "INT_MIN \<le> i" and "i \<le> INT_MAX"
  shows "atoi (to_string i) = i"
  using strtol_scan_to_string [of "[]" i] assms
  by (simp add: atoi_def wrap32_in_range)

section \<open>Properties of the device name matcher\<close>

lemma takeWhile_digits_then:
  assumes "list_all isdigit xs" and "\<not> isdigit c"
  shows "takeWhile isdigit (xs @ c # rest) = xs" and "dropWhile isdigit (xs @ c # rest) = c # rest"
  using assms by (induction xs) simp_all

lemma regex_match_build:
  assumes "major \<noteq> []" "list_all isdigit major" "minor \<noteq> []" "list_all isdigit minor"
    and "ident \<noteq> []" "list_all any_but_newline ident"
  shows "regex_match_kDeviceNameRE (''device@'' @ major @ ''.'' @ minor @ ''/external/'' @ ident) =
           Some (major @ ''.'' @ minor, ident)"
  using assms
  by (simp add: regex_match_kDeviceNameRE_def Let_def takeWhile_digits_then minus_not_isspace)

lemma take_eq_then_split: "take n s = lit \<Longrightarrow> s = lit @ drop n s"
  by (metis append_take_drop_id)

lemma regex_match_Some_shape:
  assumes "regex_match_kDeviceNameRE s = Some (v, ident)"
  shows "\<exists>major minor.
           s = ''device@'' @ major @ ''.'' @ minor @ ''/external/'' @ ident
           \<and> v = major @ ''.'' @ minor
           \<and> major \<noteq> [] \<and> list_all isdigit major
           \<and> minor \<noteq> [] \<and> list_all isdigit minor
           \<and> ident \<noteq> [] \<and> list_all any_but_newline ident"
proof -
  define r1 where "r1 = drop 7 s"
  define major where "major = takeWhile isdigit r1"
  define r2 where "r2 = dropWhile isdigit r1"
  define r3 where "r3 = drop 1 r2"
  define minor where "minor = takeWhile isdigit r3"
  define r4 where "r4 = dropWhile isdigit r3"
  from assms have c:
    "take 7 s = ''device@''" "major \<noteq> []" "take 1 r2 = ''.''" "minor \<noteq> []"
    "take 10 r4 = ''/external/''" "ident = drop 10 r4" "ident \<noteq> []" "list_all any_but_newline ident"
    "v = major @ ''.'' @ minor"
    unfolding regex_match_kDeviceNameRE_def Let_def r1_def major_def r2_def r3_def minor_def r4_def
    by (auto split: if_splits)
  have s: "s = ''device@'' @ r1"
    unfolding r1_def using c(1) by (rule take_eq_then_split)
  have r1: "r1 = major @ r2"
    by (simp add: major_def r2_def)
  have r2: "r2 = ''.'' @ r3"
    unfolding r3_def using c(3) by (rule take_eq_then_split)
  have r3: "r3 = minor @ r4"
    by (simp add: minor_def r4_def)
  have r4: "r4 = ''/external/'' @ ident"
    unfolding c(6) using c(5) by (rule take_eq_then_split)
  have digits: "list_all isdigit major" "list_all isdigit minor"
    by (simp_all add: major_def minor_def list_all_iff) (meson set_takeWhileD)+
  have whole: "s = ''device@'' @ major @ ''.'' @ minor @ ''/external/'' @ ident"
    by (subst s, subst r1, subst r2, subst r3, subst r4) (rule refl)
  show ?thesis
    using whole c(2,4,7,8,9) digits by blast
qed

lemma regex_match_iff: "regex_match_kDeviceNameRE s \<noteq> None \<longleftrightarrow> matches_kDeviceNameRE s"
proof
  assume "regex_match_kDeviceNameRE s \<noteq> None"
  then obtain v ident where "regex_match_kDeviceNameRE s = Some (v, ident)"
    by auto
  from regex_match_Some_shape [OF this] show "matches_kDeviceNameRE s"
    unfolding matches_kDeviceNameRE_def by blast
next
  assume "matches_kDeviceNameRE s"
  then obtain major minor ident where
    s: "s = ''device@'' @ major @ ''.'' @ minor @ ''/external/'' @ ident"
    and c: "major \<noteq> []" "list_all isdigit major" "minor \<noteq> []" "list_all isdigit minor"
      "ident \<noteq> []" "list_all any_but_newline ident"
    unfolding matches_kDeviceNameRE_def by blast
  show "regex_match_kDeviceNameRE s \<noteq> None"
    unfolding s by (simp only: regex_match_build [OF c] option.distinct not_False_eq_True)
qed

lemma digits_any_but_newline: "list_all isdigit xs \<Longrightarrow> list_all any_but_newline xs"
  by (simp add: list_all_iff isdigit_any_but_newline)

lemma wire_grammar_matches:
  assumes "wire_grammar s"
  shows "matches_kDeviceNameRE s"
proof -
  from assms obtain major minor ident where
    "s = ''device@'' @ major @ ''.'' @ minor @ ''/external/'' @ ident"
    "major \<noteq> []" "list_all isdigit major" "minor \<noteq> []" "list_all isdigit minor"
    "ident \<noteq> []" "list_all isdigit ident"
    unfolding wire_grammar_def by blast
  then show ?thesis
    unfolding matches_kDeviceNameRE_def using digits_any_but_newline by blast
qed

lemma wire_grammar_id_digits:
  assumes "wire_grammar s" and "regex_match_kDeviceNameRE s = Some (v, ident)"
  shows "list_all isdigit ident"
proof -
  from assms(1) obtain major minor ident' where
    s: "s = ''device@'' @ major @ ''.'' @ minor @ ''/external/'' @ ident'"
    and c: "major \<noteq> []" "list_all isdigit major" "minor \<noteq> []" "list_all isdigit minor"
      "ident' \<noteq> []" "list_all isdigit ident'"
    unfolding wire_grammar_def by blast
  have "list_all any_but_newline ident'"
    using c(6) by (simp add: list_all_iff isdigit_any_but_newline)
  from regex_match_build [OF c(1-5) this] assms(2) have "ident = ident'"
    unfolding s by (simp only: option.inject prod.inject)
  with c(6) show ?thesis
    by simp
qed

lemma version_text_split:
  assumes "version_text v"
  shows "\<exists>major minor. v = major @ ''.'' @ minor \<and> major \<noteq> [] \<and> list_all isdigit major
                        \<and> minor \<noteq> [] \<and> list_all isdigit minor"
proof -
  define major where "major = takeWhile isdigit v"
  define r where "r = dropWhile isdigit v"
  define minor where "minor = drop 1 r"
  from assms have c: "major \<noteq> []" "take 1 r = ''.''" "minor \<noteq> []" "list_all isdigit minor"
    by (simp_all add: version_text_def major_def r_def minor_def)
  have v: "v = major @ r"
    by (simp add: major_def r_def)
  have r: "r = ''.'' @ minor"
    unfolding minor_def using c(2) by (rule take_eq_then_split)
  have whole: "v = major @ ''.'' @ minor"
    by (subst v, subst r) (rule refl)
  have "list_all isdigit major"
    by (simp add: major_def list_all_iff) (meson set_takeWhileD)
  with whole c show ?thesis
    by blast
qed

lemma hidl_deviceVersion_text: "version_text (hidl_deviceVersion minor)"
  by (simp add: hidl_deviceVersion_def version_text_def isdigit_def)

lemma to_string_any_but_newline: "list_all any_but_newline (to_string i)"
  using to_string_nat_digits digits_any_but_newline
  by (simp add: to_string_def any_but_newline_def)

lemma to_string_nonempty: "to_string i \<noteq> []"
  by (simp add: to_string_def to_string_nat_nonempty)

lemma regex_match_formatted:
  assumes "version_text version"
  shows "regex_match_kDeviceNameRE (''device@'' @ version @ ''/external/'' @ to_string i) =
           Some (version, to_string i)"
proof -
  from version_text_split [OF assms] obtain major minor where
    v: "version = major @ ''.'' @ minor"
    and c: "major \<noteq> []" "list_all isdigit major" "minor \<noteq> []" "list_all isdigit minor"
    by blast
  from regex_match_build [OF c to_string_nonempty to_string_any_but_newline, of i]
  show ?thesis
    unfolding v by (simp only: append_assoc)
qed

lemma matchDeviceName_formatted:
  assumes "version_text version" and "INT_MIN \<le> i" and "i \<le> INT_MAX"
  shows "matchDeviceName off (''device@'' @ version @ ''/external/'' @ to_string i) True True =
           Inr (True, Some version, Some (''/dev/video'' @ to_string (wrap32 (i - off))))"
  using stoi_to_string [OF assms(2,3)]
  by (simp only: matchDeviceName_def regex_match_formatted [OF assms(1)] option.case prod.case
      Let_def if_True sum.case)

lemma atoi_node_number:
  assumes "int n \<le> INT_MAX"
  shows "atoi (drop 10 (''/dev/video'' @ to_string_nat n)) = int n"
proof -
  have "to_string (int n) = to_string_nat n"
    by (simp add: to_string_def)
  moreover have "atoi (to_string (int n)) = int n"
    using assms by (intro atoi_to_string) (simp_all add: INT_MIN_def)
  ultimately show ?thesis
    by simp
qed

lemma externalDeviceName_node:
  assumes "int n \<le> INT_MAX"
    and "INT_MIN \<le> cameraIdOffset cfg + int n" and "cameraIdOffset cfg + int n \<le> INT_MAX"
  shows "externalDeviceName version 10 cfg (''/dev/video'' @ to_string_nat n) =
           ''device@'' @ version @ ''/external/'' @ to_string (cameraIdOffset cfg + int n)"
  using assms by (simp only: externalDeviceName_def Let_def atoi_node_number wrap32_in_range)

lemma prefix_lengths: "aidl_kDevicePrefixLen = 10" "hidl_kDevicePrefixLen 4 = 10"
  by (simp_all add: aidl_kDevicePrefixLen_def hidl_kDevicePrefixLen_def)

lemma not_matches_by_run: "regex_match_kDeviceNameRE s = None \<Longrightarrow> \<not> matches_kDeviceNameRE s"
  using regex_match_iff [of s] by simp

lemma not_wire_grammar_by_run:
  "regex_match_kDeviceNameRE s = Some (v, ident) \<Longrightarrow> \<not> list_all isdigit ident \<Longrightarrow> \<not> wire_grammar s"
  using wire_grammar_id_digits by blast

text \<open>The matcher on the data type decides membership in the language.\<close>

lemma matches_empty_iff: "matches_empty r \<longleftrightarrow> [] \<in> language r"
  by (induction r) (auto intro: many.intros)

lemma many_cons:
  "c # w \<in> many A \<longleftrightarrow> (\<exists>u v. w = u @ v \<and> c # u \<in> A \<and> v \<in> many A)"
proof
  assume "c # w \<in> many A"
  then show "\<exists>u v. w = u @ v \<and> c # u \<in> A \<and> v \<in> many A"
  proof (induction "c # w" arbitrary: w rule: many.induct)
    case (many_more u v)
    show ?case
    proof (cases u)
      case Nil
      with many_more show ?thesis by simp
    next
      case (Cons a u')
      with many_more(1,2,4) show ?thesis by auto
    qed
  qed
next
  assume "\<exists>u v. w = u @ v \<and> c # u \<in> A \<and> v \<in> many A"
  then obtain u v where "w = u @ v" "c # u \<in> A" "v \<in> many A"
    by blast
  then show "c # w \<in> many A"
    using many_more [of "c # u" A v] by simp
qed

lemma language_after_char: "w \<in> language (after_char c r) \<longleftrightarrow> c # w \<in> language r"
proof (induction r arbitrary: w)
  case (Then r s)
  have split: "c # w \<in> language (Then r s) \<longleftrightarrow>
      ([] \<in> language r \<and> c # w \<in> language s)
      \<or> (\<exists>u v. w = u @ v \<and> c # u \<in> language r \<and> v \<in> language s)"
    by (auto simp: Cons_eq_append_conv)
  show ?case
    by (simp only: split) (auto simp: Then matches_empty_iff)
next
  case (Many r)
  then show ?case
    by (auto simp: many_cons)
qed auto

lemma regex_match_language: "regex_match r s \<longleftrightarrow> s \<in> language r"
  unfolding regex_match_def
  by (induction s arbitrary: r) (simp_all add: matches_empty_iff language_after_char)

lemma language_literal: "language (literal s) = {s}"
proof (induction s)
  case Nil
  show ?case by (simp add: literal_def)
next
  case (Cons c s)
  then have "language (foldr (\<lambda>c r. Then (Class (\<lambda>x. x = c)) r) s Empty) = {s}"
    by (simp add: literal_def)
  then show ?case
    by (auto simp: literal_def)
qed

lemma many_class: "many {[c] | c. P c} = {w. list_all P w}"
proof (intro set_eqI iffI)
  fix w
  assume "w \<in> many {[c] | c. P c}"
  then show "w \<in> {w. list_all P w}"
    by (induction rule: many.induct) auto
next
  fix w
  assume "w \<in> {w. list_all P w}"
  then have "list_all P w"
    by simp
  then show "w \<in> many {[c] | c. P c}"
  proof (induction w)
    case Nil
    show ?case by (rule many_none)
  next
    case (Cons c w)
    then have "[c] \<in> {[c] | c. P c}" and "w \<in> many {[c] | c. P c}"
      by simp_all
    then have "[c] @ w \<in> many {[c] | c. P c}"
      by (rule many_more)
    then show ?case by simp
  qed
qed

lemma language_one_or_more_class:
  "language (one_or_more (Class P)) = {w. w \<noteq> [] \<and> list_all P w}"
proof (intro set_eqI iffI)
  fix w
  assume "w \<in> language (one_or_more (Class P))"
  then show "w \<in> {w. w \<noteq> [] \<and> list_all P w}"
    by (auto simp: one_or_more_def many_class)
next
  fix w
  assume "w \<in> {w. w \<noteq> [] \<and> list_all P w}"
  then obtain c v where w: "w = [c] @ v" and c: "P c" and v: "list_all P v"
    by (cases w) auto
  have "[c] \<in> language (Class P)" and "v \<in> language (Many (Class P))"
    using c v by (simp_all add: many_class)
  then show "w \<in> language (one_or_more (Class P))"
    unfolding w one_or_more_def language.simps by blast
qed

lemma language_Then:
  "w \<in> language (Then r s) \<longleftrightarrow> (\<exists>u v. w = u @ v \<and> u \<in> language r \<and> v \<in> language s)"
  by auto

lemma language_dot: "language (Class (\<lambda>c. c = CHR ''.'')) = {''.''}"
  by auto

lemma language_kDeviceNameRE: "s \<in> language kDeviceNameRE \<longleftrightarrow> matches_kDeviceNameRE s"
proof -
  define r5 where "r5 = one_or_more (Class any_but_newline)"
  define r4 where "r4 = Then (literal ''/external/'') r5"
  define r3 where "r3 = Then (one_or_more (Class isdigit)) r4"
  define r2 where "r2 = Then (Class (\<lambda>c. c = CHR ''.'')) r3"
  define r1 where "r1 = Then (one_or_more (Class isdigit)) r2"
  have whole: "kDeviceNameRE = Then (literal ''device@'') r1"
    by (simp only: kDeviceNameRE_def r1_def r2_def r3_def r4_def r5_def)
  have m5: "w \<in> language r5 \<longleftrightarrow> w \<noteq> [] \<and> list_all any_but_newline w" for w
    by (simp only: r5_def language_one_or_more_class mem_Collect_eq)
  have m4: "w \<in> language r4 \<longleftrightarrow>
      (\<exists>ident. w = ''/external/'' @ ident \<and> ident \<noteq> [] \<and> list_all any_but_newline ident)" for w
    unfolding r4_def by (simp only: language_Then language_literal m5 singleton_iff) blast
  have m3: "w \<in> language r3 \<longleftrightarrow>
      (\<exists>minor ident. w = minor @ ''/external/'' @ ident \<and> minor \<noteq> [] \<and> list_all isdigit minor
         \<and> ident \<noteq> [] \<and> list_all any_but_newline ident)" for w
    unfolding r3_def
    by (simp only: language_Then language_one_or_more_class m4 mem_Collect_eq) blast
  have m2: "w \<in> language r2 \<longleftrightarrow>
      (\<exists>minor ident. w = ''.'' @ minor @ ''/external/'' @ ident \<and> minor \<noteq> [] \<and> list_all isdigit minor
         \<and> ident \<noteq> [] \<and> list_all any_but_newline ident)" for w
    unfolding r2_def by (simp only: language_Then language_dot m3 singleton_iff) blast
  have m1: "w \<in> language r1 \<longleftrightarrow>
      (\<exists>major minor ident. w = major @ ''.'' @ minor @ ''/external/'' @ ident
         \<and> major \<noteq> [] \<and> list_all isdigit major \<and> minor \<noteq> [] \<and> list_all isdigit minor
         \<and> ident \<noteq> [] \<and> list_all any_but_newline ident)" for w
    unfolding r1_def
    by (simp only: language_Then language_one_or_more_class m2 mem_Collect_eq) blast
  show ?thesis
    unfolding whole matches_kDeviceNameRE_def
    by (simp only: language_Then language_literal m1 singleton_iff) blast
qed

lemma regex_match_kDeviceNameRE_agrees:
  "regex_match kDeviceNameRE s \<longleftrightarrow> regex_match_kDeviceNameRE s \<noteq> None"
  by (simp only: regex_match_language language_kDeviceNameRE regex_match_iff)

section \<open>Properties of getCameraDeviceInterface\<close>

lemma matchDeviceName_reject_iff:
  "matchDeviceName off s dv dp = Inr (False, None, None) \<longleftrightarrow> \<not> matches_kDeviceNameRE s"
proof (cases "regex_match_kDeviceNameRE s")
  case None
  then show ?thesis
    using regex_match_iff [of s] by (simp add: matchDeviceName_def)
next
  case (Some a)
  then have "matches_kDeviceNameRE s"
    using regex_match_iff [of s] by simp
  with Some show ?thesis
    by (cases a) (simp add: matchDeviceName_def Let_def split: sum.splits)
qed

lemma matchDeviceName_accept:
  assumes "regex_match_kDeviceNameRE s = Some (v, ident)"
    and "0 < snd (strtol_scan ident)"
    and "INT_MIN \<le> fst (strtol_scan ident)" and "fst (strtol_scan ident) \<le> INT_MAX"
  shows "matchDeviceName off s True True =
           Inr (True, Some v, Some (''/dev/video'' @ to_string (wrap32 (fst (strtol_scan ident) - off))))"
  using assms by (cases "strtol_scan ident") (simp add: matchDeviceName_def stoi_def)

lemma map_index_present: "map_of m k = Some v \<Longrightarrow> map_index k m = (v, m)"
  by (simp add: map_index_def)

lemma map_count_zero_iff: "map_count k m = 0 \<longleftrightarrow> map_of m k = None"
  by (simp add: map_count_map_of)

lemma lookup_then_index:
  "map_count k m \<noteq> 0 \<Longrightarrow> \<exists>v. map_of m k = Some v \<and> map_index k m = (v, m)"
  by (cases "map_of m k") (simp_all add: map_count_zero_iff map_index_def)

lemma aidl_resolve_state_unchanged:
  assumes "aidl_getCameraDeviceInterface env cfg g name p = Inr (st, dev, p', es)"
  shows "p' = p"
proof (cases "map_count name (mCameraStatusMap p) = 0")
  case True
  with assms show ?thesis
    by (auto simp: aidl_getCameraDeviceInterface_def split: if_splits sum.splits prod.splits)
next
  case False
  from lookup_then_index [OF this] obtain v where
    "map_index name (mCameraStatusMap p) = (v, mCameraStatusMap p)"
    by blast
  with assms False show ?thesis
    by (auto simp: aidl_getCameraDeviceInterface_def Let_def split: if_splits sum.splits prod.splits)
qed

lemma hidl_resolve_state_unchanged:
  assumes "hidl_getCameraDeviceInterface_V3_x env cfg minor name p = Inr (st, dev, p', es)"
  shows "p' = p"
proof (cases "map_count name (mCameraStatusMap p) = 0")
  case True
  with assms show ?thesis
    by (auto simp: hidl_getCameraDeviceInterface_V3_x_def split: if_splits sum.splits prod.splits)
next
  case False
  from lookup_then_index [OF this] obtain v where
    "map_index name (mCameraStatusMap p) = (v, mCameraStatusMap p)"
    by blast
  with assms False show ?thesis
    by (auto simp: hidl_getCameraDeviceInterface_V3_x_def Let_def split: if_splits sum.splits prod.splits)
qed

lemma aidl_resolve_reject:
  assumes "\<not> matches_kDeviceNameRE s"
  shows "aidl_getCameraDeviceInterface env cfg True s p = Inr (ILLEGAL_ARGUMENT, None, p, [])"
  using assms matchDeviceName_reject_iff [of "cameraIdOffset cfg" s True True]
  by (simp add: aidl_getCameraDeviceInterface_def)

lemma hidl_resolve_reject:
  assumes "\<not> matches_kDeviceNameRE (c_str s)"
  shows "hidl_getCameraDeviceInterface_V3_x env cfg minor s p = Inr (ILLEGAL_ARGUMENT, None, p, [])"
  using assms matchDeviceName_reject_iff [of "cameraIdOffset cfg" "c_str s" True True]
  by (simp add: hidl_getCameraDeviceInterface_V3_x_def hidl_matchDeviceName_def)

lemma aidl_resolve_not_present:
  assumes "matchDeviceName (cameraIdOffset cfg) s True True = Inr (True, dv, dp)"
    and "map_of (mCameraStatusMap p) s \<noteq> Some PRESENT"
  shows "aidl_getCameraDeviceInterface env cfg True s p = Inr (ILLEGAL_ARGUMENT, None, p, [])"
proof (cases "map_of (mCameraStatusMap p) s")
  case None
  then show ?thesis
    using assms(1) by (simp add: aidl_getCameraDeviceInterface_def map_count_zero_iff)
next
  case (Some v)
  then show ?thesis
    using assms by (simp add: aidl_getCameraDeviceInterface_def map_count_zero_iff map_index_present)
qed

lemma hidl_resolve_not_present:
  assumes "hidl_matchDeviceName (cameraIdOffset cfg) s True True = Inr (True, dv, dp)"
    and "map_of (mCameraStatusMap p) s \<noteq> Some PRESENT"
  shows "hidl_getCameraDeviceInterface_V3_x env cfg minor s p = Inr (ILLEGAL_ARGUMENT, None, p, [])"
proof (cases "map_of (mCameraStatusMap p) s")
  case None
  then show ?thesis
    using assms(1) by (simp add: hidl_getCameraDeviceInterface_V3_x_def map_count_zero_iff)
next
  case (Some v)
  then show ?thesis
    using assms by (simp add: hidl_getCameraDeviceInterface_V3_x_def map_count_zero_iff map_index_present)
qed

lemma aidl_resolve_present:
  assumes "matchDeviceName (cameraIdOffset cfg) s True True = Inr (True, dv, Some path)"
    and "map_of (mCameraStatusMap p) s = Some PRESENT"
  shows "aidl_getCameraDeviceInterface env cfg True s p =
           (if init_failed env path
            then Inr (INTERNAL_ERROR, None, p,
                      [make_ExternalCameraDevice path, ALOGE ''camera device init failed''])
            else Inr (OK, Some (ExternalCameraDevice path), p, [make_ExternalCameraDevice path]))"
  using assms
  by (simp add: aidl_getCameraDeviceInterface_def map_count_zero_iff map_index_present)

lemma hidl_resolve_present:
  assumes "hidl_matchDeviceName (cameraIdOffset cfg) s True True = Inr (True, dv, Some path)"
    and "map_of (mCameraStatusMap p) s = Some PRESENT"
    and "minor = 4 \<or> minor = 5 \<or> minor = 6"
  shows "hidl_getCameraDeviceInterface_V3_x env cfg minor s p =
           (if init_failed env path
            then Inr (INTERNAL_ERROR, None, p,
                      [make_ExternalCameraDevice path, ALOGE ''camera device init failed''])
            else Inr (OK, Some (if minor = 4 then ExternalCameraDevice_3_4 path
                                else if minor = 5 then ExternalCameraDevice_3_5 path
                                else ExternalCameraDevice_3_6 path), p,
                      [make_ExternalCameraDevice path]))"
  using assms
  by (auto simp: hidl_getCameraDeviceInterface_V3_x_def map_count_zero_iff map_index_present)

lemma hidl_resolve_unknown_minor:
  assumes "hidl_matchDeviceName (cameraIdOffset cfg) s True True = Inr (True, dv, Some path)"
    and "map_of (mCameraStatusMap p) s = Some PRESENT"
    and "minor \<noteq> 4" "minor \<noteq> 5" "minor \<noteq> 6"
  shows "hidl_getCameraDeviceInterface_V3_x env cfg minor s p =
           Inr (INTERNAL_ERROR, None, p, [ALOGE ''Unknown HAL minor version''])"
  using assms
  by (simp add: hidl_getCameraDeviceInterface_V3_x_def map_count_zero_iff map_index_present)

section \<open>Properties of the hot-plug thread\<close>

lemma video_event_name:
  assumes "name = kPrefix @ S"
  shows "take 3 name \<noteq> ''cec''" and "take kPrefixLen name = kPrefix" and "drop kPrefixLen name = S"
  by (simp_all add: assms kPrefix_def kPrefixLen_def)

lemma aidl_handle_event_internal:
  assumes "S \<in> set (mInternalDevices cfg)" and "ev_name event = kPrefix @ S"
  shows "aidl_handle_event isExternal added removed env cfg mWd event p node = (Continue, p, node, [])"
  unfolding aidl_handle_event_def
  by (simp add: video_event_name [OF assms(2)] assms(1))

lemma hidl_handle_event_internal:
  assumes "S \<in> set (mInternalDevices cfg)" and "ev_name event = kPrefix @ S"
  shows "hidl_handle_event isExternal added removed env cfg mWd event p node = (Continue, p, node, [])"
  unfolding hidl_handle_event_def
  by (simp add: video_event_name [OF assms(2)] assms(1))

lemma scan_existing_internal:
  assumes "S \<in> set (mInternalDevices cfg)"
  shows "scan_existing isExternal added cfg ((kPrefix @ S) # rest) p =
           scan_existing isExternal added cfg rest p"
proof -
  define d_name where "d_name = kPrefix @ S"
  have "scan_existing isExternal added cfg (d_name # rest) p =
          scan_existing isExternal added cfg rest p"
    by (simp add: video_event_name [OF d_name_def] assms)
  then show ?thesis
    unfolding d_name_def .
qed

lemma aidl_isExternalDevice_codec:
  assumes "file_content env sysClassName = Some video_name"
    and "compare_prefix video_decoder_name video_name \<or> compare_prefix video_encoder_name video_name"
  shows "aidl_isExternalDevice env devName sysClassName =
           (False, False, [ReadFileToString sysClassName])"
  using assms by (auto simp: aidl_isExternalDevice_def)

lemma video_created_not_external:
  assumes "isExternal (v4l2DevicePath (ev_name event)) (mCamDevice (ev_name event)) = (False, h, es)"
  shows "video_created isExternal added event p = (p, usleep 100000 # es)"
  using assms by (simp add: video_created_def)

lemma aidl_handle_event_codec:
  assumes "isExternal (v4l2DevicePath (ev_name event)) (mCamDevice (ev_name event)) = (False, h, es)"
    and "list_all (\<lambda>e. \<not> is_notification e) es"
    and "take kPrefixLen (ev_name event) = kPrefix"
    and "ev_mask event AND IN_CREATE \<noteq> 0"
  shows "fst (snd (aidl_handle_event isExternal added removed env cfg mWd event p node)) = p
       \<and> list_all (\<lambda>e. \<not> is_notification e)
           (snd (snd (snd (aidl_handle_event isExternal added removed env cfg mWd event p node))))"
proof -
  have "take 3 (ev_name event) \<noteq> ''cec''"
  proof
    assume "take 3 (ev_name event) = ''cec''"
    then have "take 3 (take kPrefixLen (ev_name event)) = ''cec''"
      by (simp add: kPrefixLen_def kPrefix_def min_def)
    then show False
      by (simp add: assms(3) kPrefix_def)
  qed
  then show ?thesis
    using assms(2,4)
    by (simp add: aidl_handle_event_def assms(3) video_created_not_external [where isExternal = isExternal and event = event, OF assms(1)])
qed

lemma scan_existing_not_external:
  assumes "isExternal (v4l2DevicePath d_name) (mCamDevice d_name) = (False, h, es)"
  shows "fst (scan_existing isExternal added cfg (d_name # rest) p) =
           fst (scan_existing isExternal added cfg rest p)"
  using assms by (simp split: prod.splits)

lemma find_hdmi_rx_not_external:
  assumes "isExternal (v4l2DevicePath d_name) (mCamDevice d_name) = (False, h, es)"
  shows "fst (find_hdmi_rx isExternal added (d_name # rest) p node) =
           fst (find_hdmi_rx isExternal added rest p node)"
  using assms by (simp split: prod.splits)

text \<open>
  An event for the node \<^verbatim>\<open>video<S>\<close> with \<^verbatim>\<open>S\<close> among the internal devices, whatever its
  flags (\<^verbatim>\<open>IN_CREATE\<close> included), leaves the provider and \<^verbatim>\<open>mHdmiRxNode\<close> as they are and has
  no effect at all: no notification, and no call that classifies or probes the node. The
  scan of the existing nodes skips such an entry in the same way. In both providers.
\<close>

lemma internal_node_event_is_ignored:
  assumes "S \<in> set (mInternalDevices cfg)" and "ev_name event = kPrefix @ S"
  shows "aidl_handler kDeviceVersion cfg mWd env event p node = (Continue, p, node, [])
       \<and> hidl_handler sizeof_ptr minor cfg mWd env event p node = (Continue, p, node, [])
       \<and> aidl_handle_event isExternal added removed env cfg mWd event p node = (Continue, p, node, [])
       \<and> hidl_handle_event isExternal added removed env cfg mWd event p node = (Continue, p, node, [])
       \<and> scan_existing isExternal added cfg ((kPrefix @ S) # rest) p =
           scan_existing isExternal added cfg rest p"
  using assms
  by (simp only: aidl_handler_def hidl_handler_def aidl_handle_event_internal
      hidl_handle_event_internal scan_existing_internal simp_thms)

lemma internal_node_event_example:
  "''0'' \<in> set (mInternalDevices example_cfg)
   \<and> ev_name example_create_video0 = kPrefix @ ''0''
   \<and> ev_mask example_create_video0 AND IN_CREATE \<noteq> 0
   \<and> aidl_handler ''1.1'' example_cfg 1 example_env example_create_video0 example_present
        zeroed_buffer = (Continue, example_present, zeroed_buffer, [])
   \<and> hidl_handler 4 4 example_cfg 1 example_env example_create_video0 example_present
        zeroed_buffer = (Continue, example_present, zeroed_buffer, [])"
proof -
  have h1: "''0'' \<in> set (mInternalDevices example_cfg)"
    by code_simp
  have h2: "ev_name example_create_video0 = kPrefix @ ''0''"
    by code_simp
  have h3: "ev_mask example_create_video0 AND IN_CREATE \<noteq> 0"
    by code_simp
  show ?thesis
    using internal_node_event_is_ignored [OF h1 h2] h1 h2 h3 by blast
qed

section \<open>Properties of calls made in turn\<close>

lemma serial_reachable_registry_inv: "serial_reachable v n cfg p \<Longrightarrow> registry_inv p"
proof (induction rule: serial_reachable.induct)
  case reach_initial
  show ?case by (simp add: registry_inv_def initial_provider_def)
next
  case (reach_setCallback p cb)
  then show ?case
    by (simp add: registry_inv_def setCallback_def Let_def split: option.splits)
next
  case (reach_addExternalCamera p devName)
  then show ?case
    using values_map_assign [of "externalDeviceName v n cfg devName" PRESENT "mCameraStatusMap p"]
    by (auto simp: registry_inv_def addExternalCamera_sel distinct_map_assign list_all_iff)
next
  case (reach_deviceRemoved p devName)
  then show ?case
    using values_map_erase [of "externalDeviceName v n cfg devName" "mCameraStatusMap p"]
    by (auto simp: registry_inv_def deviceRemoved_sel distinct_map_erase list_all_iff)
next
  case (reach_hidl_deviceRemoved p devName)
  then show ?case
    using values_map_erase [of "externalDeviceName v n cfg devName" "mCameraStatusMap p"]
    by (auto simp: registry_inv_def hidl_deviceRemoved_state deviceRemoved_sel distinct_map_erase
        list_all_iff)
next
  case (reach_aidl_getCameraDeviceInterface p env given name st dev p' es)
  then show ?case
    using aidl_resolve_state_unchanged by blast
next
  case (reach_hidl_getCameraDeviceInterface_V3_x p env minor name st dev p' es)
  then show ?case
    using hidl_resolve_state_unchanged by blast
qed

lemma registry_inv_lookup:
  assumes "registry_inv p"
  shows "name \<in> fst ` set (mCameraStatusMap p) \<longleftrightarrow> map_of (mCameraStatusMap p) name = Some PRESENT"
proof
  assume "name \<in> fst ` set (mCameraStatusMap p)"
  then obtain v where v: "map_of (mCameraStatusMap p) name = Some v"
    by (cases "map_of (mCameraStatusMap p) name") (auto simp: map_of_eq_None_iff)
  then have "(name, v) \<in> set (mCameraStatusMap p)"
    by (rule map_of_SomeD)
  with assms have "v = PRESENT"
    by (auto simp: registry_inv_def list_all_iff)
  with v show "map_of (mCameraStatusMap p) name = Some PRESENT"
    by simp
next
  assume "map_of (mCameraStatusMap p) name = Some PRESENT"
  then show "name \<in> fst ` set (mCameraStatusMap p)"
    by (metis map_of_eq_None_iff option.distinct(1))
qed

lemma replay_all_present:
  assumes "list_all (\<lambda>e. snd e = PRESENT) m"
  shows "map (\<lambda>pair. cameraDeviceStatusChange c (fst pair) (snd pair)) m =
         map (\<lambda>name. cameraDeviceStatusChange c name PRESENT) (map fst m)"
  using assms by (induction m) auto

lemma count_list_replay:
  assumes "distinct ks"
  shows "count_list (map (\<lambda>name. cameraDeviceStatusChange c name PRESENT) ks)
           (cameraDeviceStatusChange c k PRESENT) = (if k \<in> set ks then 1 else 0)"
  using assms by (induction ks) auto

text \<open>
  The hot-plug thread changes the provider only through \<^verbatim>\<open>deviceAdded\<close> and
  \<^verbatim>\<open>deviceRemoved\<close>: whatever the directory holds and whatever events arrive, the state it
  leaves is one that whole calls made in turn produce.
\<close>

lemma deviceAdded_cases:
  "fst (deviceAdded v n env cfg d p) = p \<or>
   fst (deviceAdded v n env cfg d p) = fst (addExternalCamera v n cfg d p)"
  by (auto simp: deviceAdded_def split: if_splits option.splits prod.splits)

lemma deviceAdded_preserves:
  assumes "serial_reachable v n cfg p"
  shows "serial_reachable v n cfg (fst (deviceAdded v n env cfg d p))"
  using deviceAdded_cases [of v n env cfg d p] assms reach_addExternalCamera [OF assms, of d]
  by auto

lemma scan_existing_preserves:
  assumes "\<And>d p. Q p \<Longrightarrow> Q (fst (added d p))" and "Q p"
  shows "Q (fst (scan_existing isExternal added cfg entries p))"
  using assms(2)
proof (induction entries arbitrary: p)
  case Nil
  then show ?case by simp
next
  case (Cons d_name rest)
  have step: "Q (fst (added (v4l2DevicePath d_name) p))"
    using assms(1) Cons.prems by blast
  show ?case
    using Cons.IH [OF Cons.prems] Cons.IH [OF step]
    by (auto simp: Let_def split: prod.splits)
qed

lemma find_hdmi_rx_preserves:
  assumes "\<And>d p. Q p \<Longrightarrow> Q (fst (added d p))" and "Q p"
  shows "Q (fst (find_hdmi_rx isExternal added entries p node))"
  using assms(2)
proof (induction entries arbitrary: p)
  case Nil
  then show ?case by simp
next
  case (Cons d_name rest)
  have step: "Q (fst (added (v4l2DevicePath d_name) p))"
    using assms(1) Cons.prems by blast
  show ?case
    using Cons.IH [OF Cons.prems] step
    by (auto split: prod.splits)
qed

lemma handle_cec_event_preserves:
  assumes "\<And>d p. Q p \<Longrightarrow> Q (fst (added d p))"
    and "\<And>d p. Q p \<Longrightarrow> Q (fst (removed d p))" and "Q p"
  shows "Q (fst (snd (handle_cec_event isExternal added removed env event p node)))"
proof (cases "ev_mask event AND IN_CREATE \<noteq> 0")
  case True
  show ?thesis
  proof (cases "dev_dir env")
    case None
    with True assms(3) show ?thesis
      by (simp add: handle_cec_event_def)
  next
    case (Some entries)
    have "fst (snd (handle_cec_event isExternal added removed env event p node)) =
            fst (find_hdmi_rx isExternal added entries p node)"
      using True Some by (simp add: handle_cec_event_def split: prod.splits)
    then show ?thesis
      using find_hdmi_rx_preserves [where Q = Q and added = added, OF assms(1) assms(3)] by simp
  qed
next
  case False
  show ?thesis
  proof (cases "ev_mask event AND IN_DELETE \<noteq> 0")
    case True
    have "fst (snd (handle_cec_event isExternal added removed env event p node)) =
            fst (removed node p)"
      using True False by (simp add: handle_cec_event_def split: prod.splits)
    then show ?thesis
      using assms(2) [OF assms(3)] by simp
  next
    case no_delete: False
    with False assms(3) show ?thesis
      by (simp add: handle_cec_event_def)
  qed
qed

lemma video_created_preserves:
  assumes "\<And>d p. Q p \<Longrightarrow> Q (fst (added d p))" and "Q p"
  shows "Q (fst (video_created isExternal added event p))"
  using assms(1) [OF assms(2), of "v4l2DevicePath (ev_name event)"] assms(2)
  by (auto simp: video_created_def split: prod.splits)

lemma aidl_handle_event_preserves:
  assumes "\<And>d p. Q p \<Longrightarrow> Q (fst (added d p))"
    and "\<And>d p. Q p \<Longrightarrow> Q (fst (removed d p))" and "Q p"
  shows "Q (fst (snd (aidl_handle_event isExternal added removed env cfg mWd event p node)))"
proof -
  define first where
    "first = (if take 3 (ev_name event) = ''cec''
              then handle_cec_event isExternal added removed env event p node
              else (Continue, p, node, []))"
  obtain c1 p1 n1 e1 where s1: "first = (c1, p1, n1, e1)"
    by (metis prod_cases4)
  have "Q (fst (snd first))"
    using handle_cec_event_preserves [where Q = Q, OF assms] assms(3)
    by (simp add: first_def)
  then have q1: "Q p1"
    by (simp add: s1)
  have "fst (snd (aidl_handle_event isExternal added removed env cfg mWd event p node)) = p
      \<or> fst (snd (aidl_handle_event isExternal added removed env cfg mWd event p node)) = p1
      \<or> fst (snd (aidl_handle_event isExternal added removed env cfg mWd event p node)) =
          fst (video_created isExternal added event p1)
      \<or> fst (snd (aidl_handle_event isExternal added removed env cfg mWd event p node)) =
          fst (removed (v4l2DevicePath (ev_name event)) p1)"
    unfolding aidl_handle_event_def first_def [symmetric] s1
    by (simp split: prod.splits)
  then show ?thesis
    using assms(3) q1 video_created_preserves [where Q = Q, OF assms(1) q1] assms(2) [OF q1]
    by (elim disjE) simp_all
qed

lemma hidl_handle_event_preserves:
  assumes "\<And>d p. Q p \<Longrightarrow> Q (fst (added d p))"
    and "\<And>d p. Q p \<Longrightarrow> Q (fst (removed d p))" and "Q p"
  shows "Q (fst (snd (hidl_handle_event isExternal added removed env cfg mWd event p node)))"
proof -
  define first where
    "first = (if ev_mask event AND IN_CREATE \<noteq> 0
              then video_created isExternal added event p else (p, []))"
  obtain p1 e1 where s1: "first = (p1, e1)"
    by (metis surj_pair)
  have "Q (fst first)"
    using video_created_preserves [where Q = Q, OF assms(1,3)] assms(3)
    by (simp add: first_def)
  then have q1: "Q p1"
    by (simp add: s1)
  have "fst (snd (hidl_handle_event isExternal added removed env cfg mWd event p node)) = p
      \<or> fst (snd (hidl_handle_event isExternal added removed env cfg mWd event p node)) = p1
      \<or> fst (snd (hidl_handle_event isExternal added removed env cfg mWd event p node)) =
          fst (removed (v4l2DevicePath (ev_name event)) p1)
      \<or> fst (snd (hidl_handle_event isExternal added removed env cfg mWd event p node)) =
          fst (snd (handle_cec_event isExternal added removed env event p node))"
    unfolding hidl_handle_event_def first_def [symmetric] s1
    by (simp split: prod.splits)
  then show ?thesis
    using assms(3) q1 assms(2) [OF q1] handle_cec_event_preserves [where Q = Q, OF assms]
    by (elim disjE) simp_all
qed

lemma process_events_preserves:
  assumes "\<And>env event p node. Q p \<Longrightarrow> Q (fst (snd (handler env event p node)))" and "Q p"
  shows "Q (fst (snd (process_events handler events p node)))"
  using assms(2)
proof (induction events arbitrary: p node)
  case Nil
  then show ?case by simp
next
  case (Cons a events)
  obtain env event where a: "a = (env, event)"
    by (cases a)
  obtain c1 p1 n1 e1 where h: "handler env event p node = (c1, p1, n1, e1)"
    by (metis prod_cases4)
  have q1: "Q p1"
    using assms(1) [OF Cons.prems, of env event node] by (simp add: h)
  obtain c2 p2 n2 e2 where r: "process_events handler events p1 n1 = (c2, p2, n2, e2)"
    by (metis prod_cases4)
  have q2: "Q p2"
    using Cons.IH [OF q1, of n1] by (simp add: r)
  show ?case
    using q1 q2 by (simp add: a h r)
qed

lemma aidl_threadLoop_serial_reachable:
  assumes "serial_reachable kDeviceVersion aidl_kDevicePrefixLen cfg p"
  shows "serial_reachable kDeviceVersion aidl_kDevicePrefixLen cfg
           (fst (snd (aidl_threadLoop kDeviceVersion cfg mWd stack events p)))"
proof -
  let ?Q = "serial_reachable kDeviceVersion aidl_kDevicePrefixLen cfg"
  have step: "?Q (fst (snd (aidl_handler kDeviceVersion cfg mWd env event q node)))" if "?Q q"
    for env event q node
    unfolding aidl_handler_def
  proof (rule aidl_handle_event_preserves [where Q = ?Q])
    show "?Q (fst (deviceAdded kDeviceVersion aidl_kDevicePrefixLen env cfg d q))" if "?Q q" for d q
      using that by (rule deviceAdded_preserves)
    show "?Q (fst (aidl_deviceRemoved kDeviceVersion cfg d q))" if "?Q q" for d q
      unfolding aidl_deviceRemoved_def using that by (rule reach_deviceRemoved)
    show "?Q q" by (rule that)
  qed
  obtain c1 p1 n1 e1 where
    r: "process_events (aidl_handler kDeviceVersion cfg mWd) events p stack = (c1, p1, n1, e1)"
    by (metis prod_cases4)
  have "?Q (fst (snd (process_events (aidl_handler kDeviceVersion cfg mWd) events p stack)))"
    using step assms by (rule process_events_preserves [where Q = ?Q])
  then show ?thesis
    by (simp add: aidl_threadLoop_def r)
qed

lemma hidl_threadLoop_serial_reachable:
  assumes "serial_reachable (hidl_deviceVersion minor) (hidl_kDevicePrefixLen sizeof_ptr) cfg p"
  shows "serial_reachable (hidl_deviceVersion minor) (hidl_kDevicePrefixLen sizeof_ptr) cfg
           (fst (snd (hidl_threadLoop sizeof_ptr minor cfg mWd stack env0 events p)))"
proof -
  let ?Q = "serial_reachable (hidl_deviceVersion minor) (hidl_kDevicePrefixLen sizeof_ptr) cfg"
  have add: "?Q (fst (deviceAdded (hidl_deviceVersion minor) (hidl_kDevicePrefixLen sizeof_ptr)
                        env cfg d q))" if "?Q q" for env d q
    using that by (rule deviceAdded_preserves)
  have step: "?Q (fst (snd (hidl_handler sizeof_ptr minor cfg mWd env event q node)))" if "?Q q"
    for env event q node
    unfolding hidl_handler_def
  proof (rule hidl_handle_event_preserves [where Q = ?Q])
    show "?Q (fst (deviceAdded (hidl_deviceVersion minor) (hidl_kDevicePrefixLen sizeof_ptr)
                     env cfg d q))" if "?Q q" for d q
      using that by (rule add)
    show "?Q (fst (hidl_deviceRemoved_2_4 sizeof_ptr minor cfg d q))" if "?Q q" for d q
      unfolding hidl_deviceRemoved_2_4_def using that by (rule reach_hidl_deviceRemoved)
    show "?Q q" by (rule that)
  qed
  define scanned where
    "scanned = updateAttachedCameras (hidl_isExternalDevice env0)
       (deviceAdded (hidl_deviceVersion minor) (hidl_kDevicePrefixLen sizeof_ptr) env0 cfg) env0 cfg p"
  obtain opened p0 es0 where s: "scanned = (opened, p0, es0)"
    by (metis prod_cases3)
  have "?Q (fst (snd scanned))"
  proof (cases "dev_dir env0")
    case None
    then show ?thesis
      using assms by (simp add: scanned_def updateAttachedCameras_def)
  next
    case (Some entries)
    obtain ps es where
      sc: "scan_existing (hidl_isExternalDevice env0)
             (deviceAdded (hidl_deviceVersion minor) (hidl_kDevicePrefixLen sizeof_ptr) env0 cfg)
             cfg entries p = (ps, es)"
      by (metis surj_pair)
    have "?Q (fst (scan_existing (hidl_isExternalDevice env0)
             (deviceAdded (hidl_deviceVersion minor) (hidl_kDevicePrefixLen sizeof_ptr) env0 cfg)
             cfg entries p))"
      using add assms by (rule scan_existing_preserves [where Q = ?Q])
    then show ?thesis
      by (simp add: scanned_def updateAttachedCameras_def Some sc)
  qed
  then have q0: "?Q p0"
    by (simp add: s)
  obtain c1 p1 n1 e1 where
    r: "process_events (hidl_handler sizeof_ptr minor cfg mWd) events p0 stack = (c1, p1, n1, e1)"
    by (metis prod_cases4)
  have "?Q (fst (snd (process_events (hidl_handler sizeof_ptr minor cfg mWd) events p0 stack)))"
    using step q0 by (rule process_events_preserves [where Q = ?Q])
  then have q1: "?Q p1"
    by (simp add: r)
  show ?thesis
    using q0 q1 unfolding hidl_threadLoop_def scanned_def [symmetric] s
    by (simp add: r)
qed

text \<open>
  What one call does to the keys of the map: \<^verbatim>\<open>addExternalCamera\<close> adds the name it derives
  and keeps every other entry, \<^verbatim>\<open>deviceRemoved\<close> takes that name away and keeps every other
  entry, \<^verbatim>\<open>setCallback\<close> keeps the map.
\<close>

lemma map_assign_other: "k' \<noteq> k \<Longrightarrow> map_of (map_assign k v m) k' = map_of m k'"
  by (simp add: map_of_map_assign)

lemma map_assign_keys: "fst ` set (map_assign k v m) = insert k (fst ` set m)"
  unfolding map_assign_def by (induction m) auto

lemma map_erase_other: "k' \<noteq> k \<Longrightarrow> map_of (fst (map_erase k m)) k' = map_of m k'"
  by (simp add: map_erase_def delete_conv')

lemma addExternalCamera_keys:
  "fst ` set (mCameraStatusMap (fst (addExternalCamera v n cfg d p))) =
     insert (externalDeviceName v n cfg d) (fst ` set (mCameraStatusMap p))"
  by (simp add: addExternalCamera_sel map_assign_keys)

lemma addExternalCamera_other:
  "name \<noteq> externalDeviceName v n cfg d \<Longrightarrow>
   map_of (mCameraStatusMap (fst (addExternalCamera v n cfg d p))) name =
     map_of (mCameraStatusMap p) name"
  by (simp add: addExternalCamera_sel map_assign_other)

lemma deviceRemoved_keys:
  "fst ` set (mCameraStatusMap (fst (deviceRemoved v n cfg d p))) =
     fst ` set (mCameraStatusMap p) - {externalDeviceName v n cfg d}"
  "fst ` set (mCameraStatusMap (fst (hidl_deviceRemoved v n cfg d p))) =
     fst ` set (mCameraStatusMap p) - {externalDeviceName v n cfg d}"
  by (simp_all add: hidl_deviceRemoved_state deviceRemoved_sel map_erase_keys)

lemma deviceRemoved_other:
  "name \<noteq> externalDeviceName v n cfg d \<Longrightarrow>
   map_of (mCameraStatusMap (fst (deviceRemoved v n cfg d p))) name =
     map_of (mCameraStatusMap p) name"
  "name \<noteq> externalDeviceName v n cfg d \<Longrightarrow>
   map_of (mCameraStatusMap (fst (hidl_deviceRemoved v n cfg d p))) name =
     map_of (mCameraStatusMap p) name"
  by (simp_all add: hidl_deviceRemoved_state deviceRemoved_sel map_erase_other)

text \<open>
  With the calls made in turn the status map is as the specification describes it: a
  name is a key exactly when its status is \<^verbatim>\<open>PRESENT\<close>, with one entry; \<^verbatim>\<open>setCallback\<close> with a
  callback sends one \<^verbatim>\<open>PRESENT\<close> notification for each entry, each name once and no other
  name, and keeps the map; the keys after \<^verbatim>\<open>addExternalCamera\<close> and after \<^verbatim>\<open>deviceRemoved\<close>
  are the keys before with the one name added or taken away.
\<close>

lemma serial_reachable_map_present_and_replay:
  assumes "serial_reachable version prefixLen cfg p"
  shows "(\<forall>name. name \<in> fst ` set (mCameraStatusMap p) \<longleftrightarrow>
                  map_of (mCameraStatusMap p) name = Some PRESENT)
       \<and> distinct (map fst (mCameraStatusMap p))
       \<and> setCallback (Some cb) p =
           (OK, p\<lparr>mCallback := Some cb\<rparr>,
            map (\<lambda>name. cameraDeviceStatusChange cb name PRESENT) (map fst (mCameraStatusMap p)))
       \<and> (\<forall>name. count_list (snd (snd (setCallback (Some cb) p)))
                    (cameraDeviceStatusChange cb name PRESENT) =
                  map_count name (mCameraStatusMap p))
       \<and> mCameraStatusMap (fst (snd (setCallback (Some cb) p))) = mCameraStatusMap p
       \<and> fst ` set (mCameraStatusMap (fst (addExternalCamera version prefixLen cfg devName p))) =
           insert (externalDeviceName version prefixLen cfg devName) (fst ` set (mCameraStatusMap p))
       \<and> fst ` set (mCameraStatusMap (fst (deviceRemoved version prefixLen cfg devName p))) =
           fst ` set (mCameraStatusMap p) - {externalDeviceName version prefixLen cfg devName}
       \<and> fst ` set (mCameraStatusMap (fst (hidl_deviceRemoved version prefixLen cfg devName p))) =
           fst ` set (mCameraStatusMap p) - {externalDeviceName version prefixLen cfg devName}"
proof -
  have inv: "registry_inv p"
    using assms by (rule serial_reachable_registry_inv)
  then have d: "distinct (map fst (mCameraStatusMap p))"
    and allp: "list_all (\<lambda>e. snd e = PRESENT) (mCameraStatusMap p)"
    by (simp_all add: registry_inv_def)
  have replay: "setCallback (Some cb) p =
      (OK, p\<lparr>mCallback := Some cb\<rparr>,
       map (\<lambda>name. cameraDeviceStatusChange cb name PRESENT) (map fst (mCameraStatusMap p)))"
    by (simp add: setCallback_def Let_def replay_all_present [OF allp])
  have once: "count_list (snd (snd (setCallback (Some cb) p)))
                (cameraDeviceStatusChange cb name PRESENT) = map_count name (mCameraStatusMap p)"
    for name
    using count_list_replay [OF d, of cb name] by (simp add: replay map_count_def)
  show ?thesis
    using registry_inv_lookup [OF inv] d replay once
    by (simp add: addExternalCamera_keys deviceRemoved_keys)
qed

lemma serial_replay_example:
  "serial_reachable ''3.4'' 10 example_cfg example_two_plugged_one_removed
   \<and> mCameraStatusMap example_two_plugged_one_removed = [(''device@3.4/external/8'', PRESENT)]
   \<and> setCallback (Some 7) example_two_plugged_one_removed =
       (OK, \<lparr>mCameraStatusMap = [(''device@3.4/external/8'', PRESENT)], mCallback = Some 7\<rparr>,
        [cameraDeviceStatusChange 7 ''device@3.4/external/8'' PRESENT])"
proof -
  have r: "serial_reachable ''3.4'' 10 example_cfg example_two_plugged_one_removed"
    unfolding example_two_plugged_one_removed_def
    by (intro reach_deviceRemoved reach_addExternalCamera reach_initial)
  have m: "example_two_plugged_one_removed =
             \<lparr>mCameraStatusMap = [(''device@3.4/external/8'', PRESENT)], mCallback = None\<rparr>"
    by code_simp
  show ?thesis
    using serial_reachable_map_present_and_replay [OF r, of 7] r
    by (simp add: m)
qed

section \<open>Properties of calls that overlap\<close>

text \<open>
  The parts are the calls cut in two: run one after the other with nothing in between,
  they are the whole call.
\<close>

lemma setCallback_in_parts:
  "setCallback cb p =
     (fst (setCallback_unlocked (setCallback_locked cb p)), setCallback_locked cb p,
      snd (setCallback_unlocked (setCallback_locked cb p)))"
  by (simp add: setCallback_def setCallback_locked_def setCallback_unlocked_def Let_def
      split: option.splits)

lemma aidl_getCameraDeviceInterface_in_parts:
  "aidl_getCameraDeviceInterface env cfg given name p =
     (case aidl_getCameraDeviceInterface_count cfg given name p of
        Inl e \<Rightarrow> Inl e
      | Inr (resolve_returns st) \<Rightarrow> Inr (st, None, p, [])
      | Inr (resolve_continues path) \<Rightarrow> Inr (aidl_getCameraDeviceInterface_index env name path p))"
  by (simp add: aidl_getCameraDeviceInterface_def aidl_getCameraDeviceInterface_count_def
      aidl_getCameraDeviceInterface_index_def Let_def split: sum.splits prod.splits)

text \<open>
  A schedule in which the request thread finishes each call before the hot-plug thread
  runs again is the calls made in turn.
\<close>

lemma aidl_run_setCallback_in_turn:
  assumes "request s = in_no_call"
  shows "aidl_run v env cfg [request_setCallback cb, request_goes_on] s =
           Some (s\<lparr>shared := fst (snd (setCallback cb (shared s))),
                   trace := trace s @ snd (snd (setCallback cb (shared s))),
                   answers := answers s @ [fst (setCallback cb (shared s))]\<rparr>)"
  using assms
  by (simp add: setCallback_in_parts split: prod.splits)

text \<open>
  \<^verbatim>\<open>mCameraStatusMap[name]\<close> for a name that is no longer a key inserts it with the status
  \<^verbatim>\<open>NOT_PRESENT\<close>; the call answers \<^verbatim>\<open>ILLEGAL_ARGUMENT\<close> and the entry stays.
\<close>

lemma aidl_getCameraDeviceInterface_index_absent:
  assumes "name \<notin> fst ` set (mCameraStatusMap p)"
  shows "aidl_getCameraDeviceInterface_index env name path p =
           (ILLEGAL_ARGUMENT, None,
            p\<lparr>mCameraStatusMap := mCameraStatusMap p @ [(name, NOT_PRESENT)]\<rparr>, [])"
proof -
  have "map_of (mCameraStatusMap p) name = None"
    using assms by (simp add: map_of_eq_None_iff)
  then show ?thesis
    by (simp add: aidl_getCameraDeviceInterface_index_def map_index_def Let_def)
qed

section \<open>The claims\<close>

text \<open>
  C1, as the code has it. A repeated \<^verbatim>\<open>addExternalCamera\<close> for a name that is already
  \<^verbatim>\<open>PRESENT\<close> leaves the provider as it is, with exactly one entry for the name. With a
  callback attached it sends one more \<^verbatim>\<open>PRESENT\<close> notification: two calls in a row send two
  notifications. With no callback attached it sends none, and two calls in a row send
  none. This holds for both providers (any version text and prefix length).
\<close>

theorem addExternalCamera_repeat_notifies_again:
  assumes "distinct (map fst (mCameraStatusMap p))"
  shows "(map_of (mCameraStatusMap p) (externalDeviceName version prefixLen cfg devName) = Some PRESENT \<longrightarrow>
            fst (addExternalCamera version prefixLen cfg devName p) = p
            \<and> length (filter (\<lambda>e. fst e = externalDeviceName version prefixLen cfg devName)
                         (mCameraStatusMap p)) = 1)
       \<and> fst (addExternalCamera version prefixLen cfg devName
                 (fst (addExternalCamera version prefixLen cfg devName p))) =
           fst (addExternalCamera version prefixLen cfg devName p)
       \<and> length (filter (\<lambda>e. fst e = externalDeviceName version prefixLen cfg devName)
                    (mCameraStatusMap (fst (addExternalCamera version prefixLen cfg devName p)))) = 1
       \<and> (mCallback p = Some cb \<longrightarrow>
            snd (addExternalCamera version prefixLen cfg devName p) =
              [cameraDeviceStatusChange cb (externalDeviceName version prefixLen cfg devName) PRESENT]
            \<and> snd (addExternalCamera version prefixLen cfg devName p) @
                snd (addExternalCamera version prefixLen cfg devName
                       (fst (addExternalCamera version prefixLen cfg devName p))) =
                [cameraDeviceStatusChange cb (externalDeviceName version prefixLen cfg devName) PRESENT,
                 cameraDeviceStatusChange cb (externalDeviceName version prefixLen cfg devName) PRESENT])
       \<and> (mCallback p = None \<longrightarrow>
            snd (addExternalCamera version prefixLen cfg devName p) = []
            \<and> snd (addExternalCamera version prefixLen cfg devName p) @
                snd (addExternalCamera version prefixLen cfg devName
                       (fst (addExternalCamera version prefixLen cfg devName p))) = [])"
proof -
  let ?name = "externalDeviceName version prefixLen cfg devName"
  let ?p1 = "fst (addExternalCamera version prefixLen cfg devName p)"
  have present1: "map_of (mCameraStatusMap ?p1) ?name = Some PRESENT"
    by (simp add: addExternalCamera_sel map_of_map_assign)
  have distinct1: "distinct (map fst (mCameraStatusMap ?p1))"
    using assms by (simp add: addExternalCamera_sel distinct_map_assign)
  have once: "length (filter (\<lambda>e. fst e = ?name) (mCameraStatusMap q)) = 1"
    if "distinct (map fst (mCameraStatusMap q))" and "map_of (mCameraStatusMap q) ?name = Some PRESENT"
    for q
    using that by (simp add: count_entries_distinct map_count_map_of)
  have again: "fst (addExternalCamera version prefixLen cfg devName ?p1) = ?p1"
    by (simp add: addExternalCamera_present [OF present1])
  have already: "fst (addExternalCamera version prefixLen cfg devName p) = p"
    if "map_of (mCameraStatusMap p) ?name = Some PRESENT"
    using that by (simp add: addExternalCamera_present)
  have first: "snd (addExternalCamera version prefixLen cfg devName p) =
                 notify (mCallback p) ?name PRESENT"
    by (simp add: addExternalCamera_sel)
  have second: "snd (addExternalCamera version prefixLen cfg devName ?p1) =
                  notify (mCallback p) ?name PRESENT"
    by (simp add: addExternalCamera_sel)
  have with_callback:
    "snd (addExternalCamera version prefixLen cfg devName p) =
       [cameraDeviceStatusChange cb ?name PRESENT]
     \<and> snd (addExternalCamera version prefixLen cfg devName p) @
         snd (addExternalCamera version prefixLen cfg devName ?p1) =
         [cameraDeviceStatusChange cb ?name PRESENT, cameraDeviceStatusChange cb ?name PRESENT]"
    if "mCallback p = Some cb"
    using that by (simp add: first second notify_def)
  have without_callback:
    "snd (addExternalCamera version prefixLen cfg devName p) = []
     \<and> snd (addExternalCamera version prefixLen cfg devName p) @
         snd (addExternalCamera version prefixLen cfg devName ?p1) = []"
    if "mCallback p = None"
    using that by (simp add: first second notify_def)
  show ?thesis
    using already once [OF assms] once [OF distinct1 present1] again with_callback without_callback
    by blast
qed

theorem addExternalCamera_repeat_witness:
  "distinct (map fst (mCameraStatusMap example_present))
   \<and> mCallback example_present = Some 7
   \<and> map_of (mCameraStatusMap example_present)
        (externalDeviceName ''3.4'' 10 example_cfg ''/dev/video5'') = Some PRESENT
   \<and> addExternalCamera ''3.4'' 10 example_cfg ''/dev/video5'' example_present =
        (example_present, [cameraDeviceStatusChange 7 ''device@3.4/external/7'' PRESENT])
   \<and> distinct (map fst (mCameraStatusMap example_present_no_callback))
   \<and> mCallback example_present_no_callback = None
   \<and> map_of (mCameraStatusMap example_present_no_callback)
        (externalDeviceName ''3.4'' 10 example_cfg ''/dev/video5'') = Some PRESENT
   \<and> addExternalCamera ''3.4'' 10 example_cfg ''/dev/video5'' example_present_no_callback =
        (example_present_no_callback, [])"
proof -
  have d: "distinct (map fst (mCameraStatusMap example_present))"
    by code_simp
  have c: "mCallback example_present = Some 7"
    by code_simp
  have n: "externalDeviceName ''3.4'' 10 example_cfg ''/dev/video5'' = ''device@3.4/external/7''"
    by code_simp
  have m: "map_of (mCameraStatusMap example_present) ''device@3.4/external/7'' = Some PRESENT"
    by code_simp
  have d0: "distinct (map fst (mCameraStatusMap example_present_no_callback))"
    by code_simp
  have c0: "mCallback example_present_no_callback = None"
    by code_simp
  have m0: "map_of (mCameraStatusMap example_present_no_callback) ''device@3.4/external/7'' =
              Some PRESENT"
    by code_simp
  have with_callback:
    "addExternalCamera ''3.4'' 10 example_cfg ''/dev/video5'' example_present =
       (example_present, [cameraDeviceStatusChange 7 ''device@3.4/external/7'' PRESENT])"
    using addExternalCamera_repeat_notifies_again
            [OF d, of "''3.4''" 10 example_cfg "''/dev/video5''" 7] c m
    by (simp add: n prod_eq_iff)
  have without_callback:
    "addExternalCamera ''3.4'' 10 example_cfg ''/dev/video5'' example_present_no_callback =
       (example_present_no_callback, [])"
    using addExternalCamera_repeat_notifies_again
            [OF d0, of "''3.4''" 10 example_cfg "''/dev/video5''" 7] c0 m0
    by (simp add: n prod_eq_iff)
  show ?thesis
    using d c m d0 c0 m0 with_callback without_callback by (simp add: n)
qed

text \<open>
  C1 as the specification states it fails: starting with no entry and a callback
  attached, the second of two \<^verbatim>\<open>addExternalCamera\<close> calls for \<^verbatim>\<open>/dev/video5\<close> finds the name
  \<^verbatim>\<open>PRESENT\<close> and still sends a notification, in both providers.
\<close>

theorem addExternalCamera_repeat_counterexample:
  "map_of (mCameraStatusMap (fst (aidl_addExternalCamera ''1.1'' example_cfg ''/dev/video5'' example_provider)))
     ''device@1.1/external/7'' = Some PRESENT
   \<and> snd (aidl_addExternalCamera ''1.1'' example_cfg ''/dev/video5''
            (fst (aidl_addExternalCamera ''1.1'' example_cfg ''/dev/video5'' example_provider))) =
       [cameraDeviceStatusChange 7 ''device@1.1/external/7'' PRESENT]
   \<and> snd (hidl_addExternalCamera 4 4 example_cfg ''/dev/video5''
            (fst (hidl_addExternalCamera 4 4 example_cfg ''/dev/video5'' example_provider))) =
       [cameraDeviceStatusChange 7 ''device@3.4/external/7'' PRESENT]"
  by code_simp

text \<open>
  C2, as the code has it. \<^verbatim>\<open>matchDeviceName\<close> rejects a string exactly when the whole string
  is not in the language of \<^verbatim>\<open>kDeviceNameRE\<close>, which contains the wire grammar of the
  specification and, beyond it, every non-empty id text without line terminators. For a
  rejected string \<^verbatim>\<open>getCameraDeviceInterface\<close> answers \<^verbatim>\<open>ILLEGAL_ARGUMENT\<close>, constructs nothing
  and leaves the provider as it is (the HIDL provider matches the string up to its first
  NUL). A string of the language whose id text starts with a number that fits an \<^verbatim>\<open>int\<close> is
  accepted, with the path of that number less the offset, whatever follows the number; if
  it is not \<^verbatim>\<open>PRESENT\<close> in the map the answer is again \<^verbatim>\<open>ILLEGAL_ARGUMENT\<close>.
\<close>

theorem matchDeviceName_accepts_regex_language:
  "(matchDeviceName off s dv dp = Inr (False, None, None) \<longleftrightarrow> \<not> regex_match kDeviceNameRE s)
   \<and> (regex_match kDeviceNameRE s \<longleftrightarrow> matches_kDeviceNameRE s)
   \<and> (wire_grammar s \<longrightarrow> matches_kDeviceNameRE s)
   \<and> (\<not> matches_kDeviceNameRE s \<longrightarrow>
        aidl_getCameraDeviceInterface env cfg True s p = Inr (ILLEGAL_ARGUMENT, None, p, []))
   \<and> (\<not> matches_kDeviceNameRE (c_str s) \<longrightarrow>
        hidl_getCameraDeviceInterface_V3_x env cfg minor s p = Inr (ILLEGAL_ARGUMENT, None, p, []))
   \<and> (regex_match_kDeviceNameRE s = Some (v, ident) \<and> 0 < snd (strtol_scan ident)
        \<and> INT_MIN \<le> fst (strtol_scan ident) \<and> fst (strtol_scan ident) \<le> INT_MAX \<longrightarrow>
        matchDeviceName (cameraIdOffset cfg) s True True =
          Inr (True, Some v,
               Some (''/dev/video'' @ to_string (wrap32 (fst (strtol_scan ident) - cameraIdOffset cfg))))
        \<and> (map_of (mCameraStatusMap p) s \<noteq> Some PRESENT \<longrightarrow>
             aidl_getCameraDeviceInterface env cfg True s p = Inr (ILLEGAL_ARGUMENT, None, p, [])))
   \<and> (regex_match_kDeviceNameRE (c_str s) = Some (v, ident) \<and> 0 < snd (strtol_scan ident)
        \<and> INT_MIN \<le> fst (strtol_scan ident) \<and> fst (strtol_scan ident) \<le> INT_MAX \<longrightarrow>
        hidl_matchDeviceName (cameraIdOffset cfg) s True True =
          Inr (True, Some v,
               Some (''/dev/video'' @ to_string (wrap32 (fst (strtol_scan ident) - cameraIdOffset cfg))))
        \<and> (map_of (mCameraStatusMap p) s \<noteq> Some PRESENT \<longrightarrow>
             hidl_getCameraDeviceInterface_V3_x env cfg minor s p =
               Inr (ILLEGAL_ARGUMENT, None, p, [])))"
proof (intro conjI impI)
  show "matchDeviceName off s dv dp = Inr (False, None, None) \<longleftrightarrow> \<not> regex_match kDeviceNameRE s"
    by (simp only: matchDeviceName_reject_iff regex_match_language language_kDeviceNameRE)
  show "regex_match kDeviceNameRE s \<longleftrightarrow> matches_kDeviceNameRE s"
    by (simp only: regex_match_language language_kDeviceNameRE)
  show "matches_kDeviceNameRE s" if "wire_grammar s"
    using that by (rule wire_grammar_matches)
  show "aidl_getCameraDeviceInterface env cfg True s p = Inr (ILLEGAL_ARGUMENT, None, p, [])"
    if "\<not> matches_kDeviceNameRE s"
    using that by (rule aidl_resolve_reject)
  show "hidl_getCameraDeviceInterface_V3_x env cfg minor s p = Inr (ILLEGAL_ARGUMENT, None, p, [])"
    if "\<not> matches_kDeviceNameRE (c_str s)"
    using that by (rule hidl_resolve_reject)
next
  assume a: "regex_match_kDeviceNameRE s = Some (v, ident) \<and> 0 < snd (strtol_scan ident)
        \<and> INT_MIN \<le> fst (strtol_scan ident) \<and> fst (strtol_scan ident) \<le> INT_MAX"
  then have acc: "matchDeviceName (cameraIdOffset cfg) s True True =
          Inr (True, Some v,
               Some (''/dev/video'' @ to_string (wrap32 (fst (strtol_scan ident) - cameraIdOffset cfg))))"
    by (intro matchDeviceName_accept) simp_all
  then show "matchDeviceName (cameraIdOffset cfg) s True True =
          Inr (True, Some v,
               Some (''/dev/video'' @ to_string (wrap32 (fst (strtol_scan ident) - cameraIdOffset cfg))))" .
  show "aidl_getCameraDeviceInterface env cfg True s p = Inr (ILLEGAL_ARGUMENT, None, p, [])"
    if "map_of (mCameraStatusMap p) s \<noteq> Some PRESENT"
    using acc that by (rule aidl_resolve_not_present)
next
  assume a: "regex_match_kDeviceNameRE (c_str s) = Some (v, ident) \<and> 0 < snd (strtol_scan ident)
        \<and> INT_MIN \<le> fst (strtol_scan ident) \<and> fst (strtol_scan ident) \<le> INT_MAX"
  then have acc: "hidl_matchDeviceName (cameraIdOffset cfg) s True True =
          Inr (True, Some v,
               Some (''/dev/video'' @ to_string (wrap32 (fst (strtol_scan ident) - cameraIdOffset cfg))))"
    unfolding hidl_matchDeviceName_def by (intro matchDeviceName_accept) simp_all
  then show "hidl_matchDeviceName (cameraIdOffset cfg) s True True =
          Inr (True, Some v,
               Some (''/dev/video'' @ to_string (wrap32 (fst (strtol_scan ident) - cameraIdOffset cfg))))" .
  show "hidl_getCameraDeviceInterface_V3_x env cfg minor s p = Inr (ILLEGAL_ARGUMENT, None, p, [])"
    if "map_of (mCameraStatusMap p) s \<noteq> Some PRESENT"
    using acc that by (rule hidl_resolve_not_present)
qed

theorem matchDeviceName_witness:
  "\<not> matches_kDeviceNameRE ''device@3.4/external/''
   \<and> matchDeviceName 2 ''device@3.4/external/'' True True = Inr (False, None, None)
   \<and> aidl_getCameraDeviceInterface example_env example_cfg True ''device@3.4/external/'' example_present =
       Inr (ILLEGAL_ARGUMENT, None, example_present, [])"
proof -
  have r: "regex_match_kDeviceNameRE ''device@3.4/external/'' = None"
    by code_simp
  have h: "\<not> matches_kDeviceNameRE ''device@3.4/external/''"
    using r by (rule not_matches_by_run)
  show ?thesis
    using matchDeviceName_accepts_regex_language
            [of 2 "''device@3.4/external/''" True True example_env example_cfg example_present] h
    by (simp only: simp_thms)
qed

text \<open>
  C2 as the specification states it fails: \<^verbatim>\<open>device@3.4/external/5abc\<close> is not in the wire
  grammar and is accepted (as node 3 with offset 2), and for \<^verbatim>\<open>device@3.4/external/abc\<close> the
  call ends in the exception \<^verbatim>\<open>std::stoi\<close> throws instead of answering \<^verbatim>\<open>ILLEGAL_ARGUMENT\<close>.
\<close>

theorem matchDeviceName_counterexample:
  "\<not> wire_grammar ''device@3.4/external/5abc''
   \<and> matchDeviceName 2 ''device@3.4/external/5abc'' True True =
       Inr (True, Some ''3.4'', Some ''/dev/video3'')
   \<and> matchDeviceName 2 ''device@3.4/external/abc'' True True = Inl invalid_argument
   \<and> aidl_getCameraDeviceInterface example_env example_cfg True ''device@3.4/external/abc''
        example_present = Inl invalid_argument
   \<and> hidl_getCameraDeviceInterface_V3_x example_env example_cfg 4 ''device@3.4/external/abc''
        example_present = Inl invalid_argument"
proof -
  have r: "regex_match_kDeviceNameRE ''device@3.4/external/5abc'' = Some (''3.4'', ''5abc'')"
    by code_simp
  have d: "\<not> list_all isdigit ''5abc''"
    by code_simp
  have g: "\<not> wire_grammar ''device@3.4/external/5abc''"
    using r d by (rule not_wire_grammar_by_run)
  have a: "matchDeviceName 2 ''device@3.4/external/5abc'' True True =
             Inr (True, Some ''3.4'', Some ''/dev/video3'')"
    by code_simp
  have b: "matchDeviceName 2 ''device@3.4/external/abc'' True True = Inl invalid_argument"
    by code_simp
  have c: "aidl_getCameraDeviceInterface example_env example_cfg True ''device@3.4/external/abc''
             example_present = Inl invalid_argument"
    by code_simp
  have e: "hidl_getCameraDeviceInterface_V3_x example_env example_cfg 4 ''device@3.4/external/abc''
             example_present = Inl invalid_argument"
    by code_simp
  show ?thesis
    using g a b c e by simp
qed

text \<open>
  C3. The code at the failing input, in the AIDL provider, with the hot-plug thread
  running between the parts of a request.

  First run: \<^verbatim>\<open>/dev/video5\<close> is plugged in; \<^verbatim>\<open>getCameraDeviceInterface\<close> for its name finds
  \<^verbatim>\<open>count\<close> to be 1; the node is unplugged and \<^verbatim>\<open>deviceRemoved\<close> erases the entry; the request
  goes on with \<^verbatim>\<open>mCameraStatusMap[name]\<close>, which inserts a \<^verbatim>\<open>NOT_PRESENT\<close> entry for the name,
  and answers \<^verbatim>\<open>ILLEGAL_ARGUMENT\<close>. The name is now a key of the map without being
  \<^verbatim>\<open>PRESENT\<close>, and a \<^verbatim>\<open>setCallback\<close> after that sends the new callback a notification for the
  removed name.

  Second run: \<^verbatim>\<open>setCallback\<close> has assigned the callback and released \<^verbatim>\<open>mLock\<close>;
  \<^verbatim>\<open>addExternalCamera\<close> for \<^verbatim>\<open>/dev/video5\<close> notifies that callback; the loop of \<^verbatim>\<open>setCallback\<close>
  then sends the same callback the same \<^verbatim>\<open>PRESENT\<close> notification again.
\<close>

theorem overlapping_calls_break_status_map:
  "aidl_run ''1.1'' example_env example_cfg
     [hotplug_addExternalCamera ''/dev/video5'',
      request_getCameraDeviceInterface ''device@1.1/external/7'',
      hotplug_deviceRemoved ''/dev/video5'',
      request_goes_on,
      request_setCallback (Some 8),
      request_goes_on] initial_system =
     Some \<lparr>shared = \<lparr>mCameraStatusMap = [(''device@1.1/external/7'', NOT_PRESENT)],
                      mCallback = Some 8\<rparr>,
           request = in_no_call,
           trace = [cameraDeviceStatusChange 8 ''device@1.1/external/7'' NOT_PRESENT],
           answers = [ILLEGAL_ARGUMENT, OK]\<rparr>
   \<and> aidl_run ''1.1'' example_env example_cfg
       [request_setCallback (Some 7),
        hotplug_addExternalCamera ''/dev/video5'',
        request_goes_on] initial_system =
     Some \<lparr>shared = \<lparr>mCameraStatusMap = [(''device@1.1/external/7'', PRESENT)],
                      mCallback = Some 7\<rparr>,
           request = in_no_call,
           trace = [cameraDeviceStatusChange 7 ''device@1.1/external/7'' PRESENT,
                    cameraDeviceStatusChange 7 ''device@1.1/external/7'' PRESENT],
           answers = [OK]\<rparr>"
  by code_simp

text \<open>
  C4, as the code has it. In the AIDL provider a node whose name attribute starts with
  the decoder or the encoder name is classified as not external whatever the node would
  answer: the name is read and tested first, and the node is neither opened nor queried.
  An \<^verbatim>\<open>IN_CREATE\<close> event for such a node leaves the provider as it is and sends no
  notification, and both scans of the device directory pass over it.
\<close>

theorem codec_node_is_never_external:
  assumes "file_content env (mCamDevice d_name) = Some video_name"
    and "compare_prefix video_decoder_name video_name \<or> compare_prefix video_encoder_name video_name"
  shows "aidl_isExternalDevice env devName (mCamDevice d_name) =
           (False, False, [ReadFileToString (mCamDevice d_name)])
       \<and> (ev_name event = d_name \<and> take kPrefixLen d_name = kPrefix \<and> ev_mask event AND IN_CREATE \<noteq> 0 \<longrightarrow>
            fst (snd (aidl_handler kDeviceVersion cfg mWd env event p node)) = p
            \<and> list_all (\<lambda>e. \<not> is_notification e)
                (snd (snd (snd (aidl_handler kDeviceVersion cfg mWd env event p node)))))
       \<and> fst (scan_existing (aidl_isExternalDevice env) added cfg (d_name # rest) p) =
           fst (scan_existing (aidl_isExternalDevice env) added cfg rest p)
       \<and> fst (find_hdmi_rx (aidl_isExternalDevice env) added (d_name # rest) p node) =
           fst (find_hdmi_rx (aidl_isExternalDevice env) added rest p node)"
proof -
  have c: "aidl_isExternalDevice env devName (mCamDevice d_name) =
             (False, False, [ReadFileToString (mCamDevice d_name)])" for devName
    using assms by (rule aidl_isExternalDevice_codec)
  have quiet: "list_all (\<lambda>e. \<not> is_notification e) [ReadFileToString (mCamDevice d_name)]"
    by simp
  have ev: "fst (snd (aidl_handler kDeviceVersion cfg mWd env event p node)) = p
            \<and> list_all (\<lambda>e. \<not> is_notification e)
                (snd (snd (snd (aidl_handler kDeviceVersion cfg mWd env event p node))))"
    if "ev_name event = d_name" "take kPrefixLen d_name = kPrefix" "ev_mask event AND IN_CREATE \<noteq> 0"
    unfolding aidl_handler_def
    using aidl_handle_event_codec [where isExternal = "aidl_isExternalDevice env" and event = event
        and h = False and es = "[ReadFileToString (mCamDevice d_name)]"] c quiet that
    by simp
  show ?thesis
    using c ev
      scan_existing_not_external [where isExternal = "aidl_isExternalDevice env" and d_name = d_name, OF c]
      find_hdmi_rx_not_external [where isExternal = "aidl_isExternalDevice env" and d_name = d_name, OF c]
    by blast
qed

theorem codec_node_witness:
  "file_content example_env_decoder (mCamDevice ''video1'') = Some (''amphion-vpu-decoder'' @ [CHR 0x0A])
   \<and> compare_prefix video_decoder_name (''amphion-vpu-decoder'' @ [CHR 0x0A])
   \<and> aidl_isExternalDevice example_env_decoder ''/dev/video1'' (mCamDevice ''video1'') =
        (False, False, [ReadFileToString (mCamDevice ''video1'')])"
proof -
  have h1: "file_content example_env_decoder (mCamDevice ''video1'') =
              Some (''amphion-vpu-decoder'' @ [CHR 0x0A])"
    by code_simp
  have h2: "compare_prefix video_decoder_name (''amphion-vpu-decoder'' @ [CHR 0x0A])"
    by code_simp
  show ?thesis
    using codec_node_is_never_external [OF h1 disjI1 [OF h2]] h1 h2 by blast
qed

text \<open>
  C4 as the specification states it fails: for a node named as the decoder, the AIDL
  classification ends after reading the name, before any open or capability query; and
  the HIDL classification, which has no such test, reports the node as external, so that
  its \<^verbatim>\<open>IN_CREATE\<close> event records it present.
\<close>

theorem codec_node_counterexample:
  "aidl_isExternalDevice example_env_decoder ''/dev/video1'' (mCamDevice ''video1'') =
     (False, False, [ReadFileToString ''/sys/class/video4linux/video1/name''])
   \<and> hidl_isExternalDevice example_env_decoder ''/dev/video1'' (mCamDevice ''video1'') =
       (True, False, [open_O_RDWR_O_NONBLOCK ''/dev/video1'', VIDIOC_QUERYCAP ''/dev/video1'',
                      VIDIOC_ENUM_FMT ''/dev/video1''])
   \<and> mCameraStatusMap (fst (snd (hidl_handler 4 4 example_cfg 1 example_env_decoder
         example_create_video1 example_provider zeroed_buffer))) =
       [(''device@3.4/external/3'', PRESENT)]"
  by code_simp

text \<open>
  C5, as the code has it. A node \<^verbatim>\<open>/dev/video<n>\<close> is recorded under the name whose number
  is \<^verbatim>\<open>n\<close> plus the offset, and \<^verbatim>\<open>matchDeviceName\<close> on that name gives back the path
  \<^verbatim>\<open>/dev/video<n>\<close>: the node number itself, since parsing subtracts the offset that
  formatting added. The name of the path that parsing gives is again the name parsed, so
  the two mappings are inverse to each other. The sums must fit an \<^verbatim>\<open>int\<close>; the version
  text must be two numbers with a dot, as the three HIDL versions are; the prefix length
  is 10, as in the AIDL provider and in a 32-bit build of the HIDL one.
\<close>

theorem device_name_round_trip:
  assumes "version_text version"
    and "int n \<le> INT_MAX"
    and "INT_MIN \<le> cameraIdOffset cfg + int n" and "cameraIdOffset cfg + int n \<le> INT_MAX"
  shows "map_of (mCameraStatusMap
                  (fst (addExternalCamera version 10 cfg (''/dev/video'' @ to_string_nat n) p)))
           (''device@'' @ version @ ''/external/'' @ to_string (cameraIdOffset cfg + int n)) =
           Some PRESENT
       \<and> matchDeviceName (cameraIdOffset cfg)
           (externalDeviceName version 10 cfg (''/dev/video'' @ to_string_nat n)) True True =
           Inr (True, Some version, Some (''/dev/video'' @ to_string_nat n))
       \<and> externalDeviceName version 10 cfg
           (''/dev/video'' @ to_string (wrap32 (cameraIdOffset cfg + int n - cameraIdOffset cfg))) =
           ''device@'' @ version @ ''/external/'' @ to_string (cameraIdOffset cfg + int n)
       \<and> aidl_kDevicePrefixLen = 10 \<and> hidl_kDevicePrefixLen 4 = 10
       \<and> version_text (hidl_deviceVersion minor)"
proof -
  let ?name = "''device@'' @ version @ ''/external/'' @ to_string (cameraIdOffset cfg + int n)"
  have name: "externalDeviceName version 10 cfg (''/dev/video'' @ to_string_nat n) = ?name"
    using assms(2-4) by (rule externalDeviceName_node)
  have offset_cancels: "wrap32 (cameraIdOffset cfg + int n - cameraIdOffset cfg) = int n"
    using assms(2) by (simp add: wrap32_in_range INT_MIN_def)
  have str: "to_string (int n) = to_string_nat n"
    by (simp add: to_string_def)
  have parse: "matchDeviceName (cameraIdOffset cfg) ?name True True =
                 Inr (True, Some version, Some (''/dev/video'' @ to_string_nat n))"
    using matchDeviceName_formatted [OF assms(1,3,4), of "cameraIdOffset cfg"]
    by (simp only: offset_cancels str)
  have recorded: "map_of (mCameraStatusMap
                    (fst (addExternalCamera version 10 cfg (''/dev/video'' @ to_string_nat n) p))) ?name =
                  Some PRESENT"
    by (simp only: addExternalCamera_sel map_of_map_assign name fun_upd_same)
  have c2: "matchDeviceName (cameraIdOffset cfg)
              (externalDeviceName version 10 cfg (''/dev/video'' @ to_string_nat n)) True True =
              Inr (True, Some version, Some (''/dev/video'' @ to_string_nat n))"
    unfolding name by (rule parse)
  have c3: "externalDeviceName version 10 cfg
              (''/dev/video'' @ to_string (wrap32 (cameraIdOffset cfg + int n - cameraIdOffset cfg))) =
            ?name"
    unfolding offset_cancels str by (rule name)
  show ?thesis
    using recorded c2 c3 prefix_lengths hidl_deviceVersion_text by blast
qed

theorem device_name_round_trip_witness:
  "version_text ''3.4'' \<and> int 5 \<le> INT_MAX
   \<and> INT_MIN \<le> cameraIdOffset example_cfg + int 5 \<and> cameraIdOffset example_cfg + int 5 \<le> INT_MAX
   \<and> matchDeviceName (cameraIdOffset example_cfg)
        (externalDeviceName ''3.4'' 10 example_cfg (''/dev/video'' @ to_string_nat 5)) True True =
        Inr (True, Some ''3.4'', Some (''/dev/video'' @ to_string_nat 5))
   \<and> to_string_nat 5 = ''5''"
proof -
  have h1: "version_text ''3.4''"
    by code_simp
  have h2: "int 5 \<le> INT_MAX"
    by code_simp
  have h3: "INT_MIN \<le> cameraIdOffset example_cfg + int 5"
    by code_simp
  have h4: "cameraIdOffset example_cfg + int 5 \<le> INT_MAX"
    by code_simp
  have h5: "to_string_nat 5 = ''5''"
    by code_simp
  show ?thesis
    using device_name_round_trip [OF h1 h2 h3 h4] h1 h2 h3 h4 h5 by blast
qed

text \<open>
  C5 as the specification states it fails: with offset 2, node 5 is recorded as number 7
  and parsing that name gives node 5, not node 5 - 2 = 3.
\<close>

theorem device_name_round_trip_counterexample:
  "externalDeviceName ''3.4'' aidl_kDevicePrefixLen example_cfg ''/dev/video5'' = ''device@3.4/external/7''
   \<and> matchDeviceName (cameraIdOffset example_cfg) ''device@3.4/external/7'' True True =
       Inr (True, Some ''3.4'', Some ''/dev/video5'')
   \<and> ''/dev/video'' @ to_string (5 - cameraIdOffset example_cfg) = ''/dev/video3''
   \<and> ''/dev/video5'' \<noteq> ''/dev/video3''"
  by code_simp

text \<open>
  C6. \<^verbatim>\<open>deviceRemoved\<close> for a node whose name is not in the status map: \<^verbatim>\<open>erase\<close> reports that
  it removed nothing (the call itself returns no value), the provider is as before, and
  the only effect is the line in the error log; no notification is sent. In both
  providers.
\<close>

theorem deviceRemoved_unknown_is_noop:
  assumes "externalDeviceName version prefixLen cfg devName \<notin> fst ` set (mCameraStatusMap p)"
  shows "snd (map_erase (externalDeviceName version prefixLen cfg devName) (mCameraStatusMap p)) = 0
       \<and> deviceRemoved version prefixLen cfg devName p =
           (p, [ALOGE ''cannot find camera device to remove''])
       \<and> hidl_deviceRemoved version prefixLen cfg devName p =
           (p, [ALOGE ''cannot find camera device''])"
proof -
  have "map_of (mCameraStatusMap p) (externalDeviceName version prefixLen cfg devName) = None"
    using assms by (simp add: map_of_eq_None_iff)
  then show ?thesis
    using assms
    by (simp add: deviceRemoved_def hidl_deviceRemoved_def Let_def map_erase_absent)
qed

theorem deviceRemoved_unknown_witness:
  "externalDeviceName ''3.4'' 10 example_cfg ''/dev/video9'' \<notin> fst ` set (mCameraStatusMap example_present)
   \<and> deviceRemoved ''3.4'' 10 example_cfg ''/dev/video9'' example_present =
       (example_present, [ALOGE ''cannot find camera device to remove''])
   \<and> hidl_deviceRemoved ''3.4'' 10 example_cfg ''/dev/video9'' example_present =
       (example_present, [ALOGE ''cannot find camera device''])"
proof -
  have h: "externalDeviceName ''3.4'' 10 example_cfg ''/dev/video9'' \<notin>
             fst ` set (mCameraStatusMap example_present)"
    by code_simp
  show ?thesis
    using deviceRemoved_unknown_is_noop [OF h] h by simp
qed

text \<open>
  C7. The code at the failing input: node 0 is internal, \<^verbatim>\<open>/dev/\<close> holds \<^verbatim>\<open>cec0\<close> and
  \<^verbatim>\<open>video0\<close>, and \<^verbatim>\<open>video0\<close> answers as the HDMI receiver. The scan of the existing nodes and
  the event \<^verbatim>\<open>IN_CREATE video0\<close> test \<^verbatim>\<open>mInternalDevices\<close> first and do nothing. The event
  \<^verbatim>\<open>IN_CREATE cec0\<close> makes the watch loop read \<^verbatim>\<open>/dev/\<close> again, and that loop has no such
  test: it classifies \<^verbatim>\<open>video0\<close> (reads its name attribute, opens it, queries its
  capabilities), records it \<^verbatim>\<open>PRESENT\<close> under the id 0 + 2 and notifies the callback. In
  both providers.
\<close>

theorem cec_rescan_records_internal_node:
  "mInternalDevices example_cfg = [''0'']
   \<and> dev_dir example_env_internal_receiver = Some [''cec0'', ''video0'']
   \<and> scan_existing (aidl_isExternalDevice example_env_internal_receiver)
       (deviceAdded ''1.1'' aidl_kDevicePrefixLen example_env_internal_receiver example_cfg)
       example_cfg [''cec0'', ''video0''] example_provider = (example_provider, [])
   \<and> aidl_handler ''1.1'' example_cfg 1 example_env_internal_receiver example_create_video0
       example_provider zeroed_buffer = (Continue, example_provider, zeroed_buffer, [])
   \<and> hidl_handler 4 4 example_cfg 1 example_env_internal_receiver example_create_video0
       example_provider zeroed_buffer = (Continue, example_provider, zeroed_buffer, [])
   \<and> fst (snd (aidl_handler ''1.1'' example_cfg 1 example_env_internal_receiver example_create_cec0
       example_provider zeroed_buffer)) =
     \<lparr>mCameraStatusMap = [(''device@1.1/external/2'', PRESENT)], mCallback = Some 7\<rparr>
   \<and> snd (snd (snd (aidl_handler ''1.1'' example_cfg 1 example_env_internal_receiver
       example_create_cec0 example_provider zeroed_buffer))) =
     [opendir ''/dev/'', usleep 800000,
      ReadFileToString ''/sys/class/video4linux/video0/name'',
      open_O_RDWR_O_NONBLOCK ''/dev/video0'', VIDIOC_QUERYCAP ''/dev/video0'',
      ReadFileToString ''/sys/class/video4linux/video0/name'',
      open_O_RDWR ''/dev/video0'', VIDIOC_QUERYCAP ''/dev/video0'',
      make_ExternalCameraDevice ''/dev/video0'',
      cameraDeviceStatusChange 7 ''device@1.1/external/2'' PRESENT]
   \<and> fst (snd (hidl_handler 4 4 example_cfg 1 example_env_internal_receiver example_create_cec0
       example_provider zeroed_buffer)) =
     \<lparr>mCameraStatusMap = [(''device@3.4/external/2'', PRESENT)], mCallback = Some 7\<rparr>
   \<and> snd (snd (snd (hidl_handler 4 4 example_cfg 1 example_env_internal_receiver
       example_create_cec0 example_provider zeroed_buffer))) =
     [opendir ''/dev/'', usleep 800000,
      open_O_RDWR_O_NONBLOCK ''/dev/video0'', VIDIOC_QUERYCAP ''/dev/video0'',
      ReadFileToString ''/sys/class/video4linux/video0/name'',
      open_O_RDWR ''/dev/video0'', VIDIOC_QUERYCAP ''/dev/video0'',
      make_ExternalCameraDevice ''/dev/video0'',
      cameraDeviceStatusChange 7 ''device@3.4/external/2'' PRESENT]"
  by code_simp

text \<open>
  C8. The code at the failing input. HIDL provider, \<^verbatim>\<open>mHdmiRxNode\<close> all NUL at the start:
  a \<^verbatim>\<open>cec0\<close> creation finds the receiver at \<^verbatim>\<open>/dev/video12\<close>, its deletion removes that
  entry; the next creation finds the receiver at \<^verbatim>\<open>/dev/video3\<close>, and \<^verbatim>\<open>strncpy\<close> with the
  length of the path writes no terminator, so the buffer reads \<^verbatim>\<open>/dev/video32\<close>; the next
  deletion asks for node 32 and the entry of node 3 stays \<^verbatim>\<open>PRESENT\<close>. AIDL provider: the
  creation and the deletion arrive in two calls of \<^verbatim>\<open>threadLoop\<close>; the second call has a new
  \<^verbatim>\<open>mHdmiRxNode\<close> (here all NUL), and the entry stays \<^verbatim>\<open>PRESENT\<close>.
\<close>

theorem cec_delete_misses_remembered_node:
  "fst (snd (hidl_threadLoop 4 4 example_cfg 1 zeroed_buffer example_env_no_nodes
       [(example_env_receiver ''12'', example_create_cec0),
        (example_env_receiver ''12'', example_delete_cec0),
        (example_env_receiver ''3'', example_create_cec0),
        (example_env_receiver ''3'', example_delete_cec0)] example_provider)) =
     \<lparr>mCameraStatusMap = [(''device@3.4/external/5'', PRESENT)], mCallback = Some 7\<rparr>
   \<and> take 13 (fst (snd (snd (hidl_threadLoop 4 4 example_cfg 1 zeroed_buffer example_env_no_nodes
       [(example_env_receiver ''12'', example_create_cec0),
        (example_env_receiver ''12'', example_delete_cec0),
        (example_env_receiver ''3'', example_create_cec0),
        (example_env_receiver ''3'', example_delete_cec0)] example_provider)))) =
     ''/dev/video32'' @ [CHR 0x00]
   \<and> fst (snd (aidl_threadLoop ''1.1'' example_cfg 1 zeroed_buffer
       [(example_env_receiver ''3'', example_create_cec0)] example_provider)) =
     \<lparr>mCameraStatusMap = [(''device@1.1/external/5'', PRESENT)], mCallback = Some 7\<rparr>
   \<and> aidl_threadLoop ''1.1'' example_cfg 1 zeroed_buffer
       [(example_env_receiver ''3'', example_delete_cec0)]
       \<lparr>mCameraStatusMap = [(''device@1.1/external/5'', PRESENT)], mCallback = Some 7\<rparr> =
     (True, \<lparr>mCameraStatusMap = [(''device@1.1/external/5'', PRESENT)], mCallback = Some 7\<rparr>,
      [ALOGE ''cannot find camera device to remove''])"
  by code_simp

text \<open>
  C9. When the name parses and is \<^verbatim>\<open>PRESENT\<close> but the device object fails to initialise,
  \<^verbatim>\<open>getCameraDeviceInterface\<close> answers \<^verbatim>\<open>INTERNAL_ERROR\<close> with no device and leaves the provider
  as it is, so the name is still \<^verbatim>\<open>PRESENT\<close>; the same call in a world where the object
  initialises answers \<^verbatim>\<open>OK\<close> with the device. In both providers (the AIDL call with a result
  pointer).
\<close>

theorem resolve_init_failure_keeps_registry:
  assumes "map_of (mCameraStatusMap p) name = Some PRESENT"
    and "init_failed env path"
  shows "(matchDeviceName (cameraIdOffset cfg) name True True = Inr (True, dv, Some path) \<longrightarrow>
            aidl_getCameraDeviceInterface env cfg True name p =
              Inr (INTERNAL_ERROR, None, p,
                   [make_ExternalCameraDevice path, ALOGE ''camera device init failed''])
            \<and> (\<not> init_failed env' path \<longrightarrow>
                 aidl_getCameraDeviceInterface env' cfg True name p =
                   Inr (OK, Some (ExternalCameraDevice path), p, [make_ExternalCameraDevice path])))
       \<and> (hidl_matchDeviceName (cameraIdOffset cfg) name True True = Inr (True, dv, Some path) \<longrightarrow>
            (\<exists>es. hidl_getCameraDeviceInterface_V3_x env cfg minor name p =
                    Inr (INTERNAL_ERROR, None, p, es))
            \<and> (\<not> init_failed env' path \<and> (minor = 4 \<or> minor = 5 \<or> minor = 6) \<longrightarrow>
                 (\<exists>dev. hidl_getCameraDeviceInterface_V3_x env' cfg minor name p =
                          Inr (OK, Some dev, p, [make_ExternalCameraDevice path]))))"
proof (intro conjI impI)
  assume m: "matchDeviceName (cameraIdOffset cfg) name True True = Inr (True, dv, Some path)"
  show "aidl_getCameraDeviceInterface env cfg True name p =
          Inr (INTERNAL_ERROR, None, p,
               [make_ExternalCameraDevice path, ALOGE ''camera device init failed''])"
    using assms(2) by (simp add: aidl_resolve_present [OF m assms(1)])
  show "aidl_getCameraDeviceInterface env' cfg True name p =
          Inr (OK, Some (ExternalCameraDevice path), p, [make_ExternalCameraDevice path])"
    if "\<not> init_failed env' path"
    using that by (simp add: aidl_resolve_present [OF m assms(1)])
next
  assume m: "hidl_matchDeviceName (cameraIdOffset cfg) name True True = Inr (True, dv, Some path)"
  show "\<exists>es. hidl_getCameraDeviceInterface_V3_x env cfg minor name p =
               Inr (INTERNAL_ERROR, None, p, es)"
  proof (cases "minor = 4 \<or> minor = 5 \<or> minor = 6")
    case True
    from hidl_resolve_present [OF m assms(1) True] assms(2) show ?thesis
      by simp
  next
    case False
    then have "minor \<noteq> 4" "minor \<noteq> 5" "minor \<noteq> 6"
      by simp_all
    from hidl_resolve_unknown_minor [OF m assms(1) this] show ?thesis
      by simp
  qed
  show "\<exists>dev. hidl_getCameraDeviceInterface_V3_x env' cfg minor name p =
                Inr (OK, Some dev, p, [make_ExternalCameraDevice path])"
    if "\<not> init_failed env' path \<and> (minor = 4 \<or> minor = 5 \<or> minor = 6)"
  proof -
    from that have ok: "\<not> init_failed env' path" and v: "minor = 4 \<or> minor = 5 \<or> minor = 6"
      by simp_all
    from hidl_resolve_present [OF m assms(1) v] ok show ?thesis
      by simp
  qed
qed

theorem resolve_init_failure_witness:
  "map_of (mCameraStatusMap example_present) ''device@3.4/external/7'' = Some PRESENT
   \<and> init_failed example_env_init_fails ''/dev/video5''
   \<and> matchDeviceName (cameraIdOffset example_cfg) ''device@3.4/external/7'' True True =
       Inr (True, Some ''3.4'', Some ''/dev/video5'')
   \<and> aidl_getCameraDeviceInterface example_env_init_fails example_cfg True
        ''device@3.4/external/7'' example_present =
       Inr (INTERNAL_ERROR, None, example_present,
            [make_ExternalCameraDevice ''/dev/video5'', ALOGE ''camera device init failed''])"
proof -
  have h1: "map_of (mCameraStatusMap example_present) ''device@3.4/external/7'' = Some PRESENT"
    by code_simp
  have h2: "init_failed example_env_init_fails ''/dev/video5''"
    by code_simp
  have h3: "matchDeviceName (cameraIdOffset example_cfg) ''device@3.4/external/7'' True True =
              Inr (True, Some ''3.4'', Some ''/dev/video5'')"
    by code_simp
  show ?thesis
    using resolve_init_failure_keeps_registry [OF h1 h2, of example_cfg "Some ''3.4''"] h1 h2 h3
    by blast
qed

text \<open>
  C10. Whatever the provider's state, \<^verbatim>\<open>getCameraIdList\<close> answers \<^verbatim>\<open>OK\<close> with the empty list
  and \<^verbatim>\<open>getVendorTags\<close> answers \<^verbatim>\<open>OK\<close> with no section (the AIDL methods given a result
  pointer, which the interface always supplies); the entries of the status map reach a
  client only as the notifications \<^verbatim>\<open>setCallback\<close> and the hot-plug thread send.
\<close>

theorem getCameraIdList_always_empty:
  "aidl_getCameraIdList True p = (OK, Some [])
   \<and> aidl_getVendorTags True p = (OK, Some [])
   \<and> hidl_getCameraIdList p = (OK, [])
   \<and> hidl_getVendorTags p = (OK, [])
   \<and> snd (snd (setCallback (Some cb) p)) =
       map (\<lambda>pair. cameraDeviceStatusChange cb (fst pair) (snd pair)) (mCameraStatusMap p)"
  by (simp add: aidl_getCameraIdList_def aidl_getVendorTags_def hidl_getCameraIdList_def
      hidl_getVendorTags_def setCallback_def Let_def)

end
